theory Spec2Isabelle
  imports Complex_Main
begin

section \<open>Python primitives used by the three simulators\<close>

text \<open>
  The repository holds three Tk programs: \<^verbatim>\<open>jmch.py\<close> (class
  \<^verbatim>\<open>JammerWithPreventionSimulator\<close>), \<^verbatim>\<open>jammer.py\<close> (class
  \<^verbatim>\<open>FixedJammerSimulator\<close>) and \<^verbatim>\<open>jammer+prevention.py\<close> (class
  \<^verbatim>\<open>AdvancedJammerSimulator\<close>). Only the engine state is modelled; widgets and
  plots are left out. Python floats are modelled by the reals (no rounding), Python
  ints by \<open>int\<close>. Every random draw is an explicit argument of the function that
  makes it.
\<close>

datatype py_error = ZeroDivisionError | IndexError | KeyError string | AttributeError string

definition bind_err :: "py_error + 'a \<Rightarrow> ('a \<Rightarrow> py_error + 'b) \<Rightarrow> py_error + 'b" where
  "bind_err m f = (case m of Inl e \<Rightarrow> Inl e | Inr x \<Rightarrow> f x)"

text \<open>\<^verbatim>\<open>a / b\<close> on two ints: true division, raising on a zero divisor.\<close>

definition py_truediv :: "int \<Rightarrow> int \<Rightarrow> py_error + real" where
  "py_truediv a b = (if b = 0 then Inl ZeroDivisionError else Inr (real_of_int a / real_of_int b))"

text \<open>\<^verbatim>\<open>a % b\<close> on two ints (the sign follows the divisor, as HOL's \<open>mod\<close> does).\<close>

definition py_mod :: "int \<Rightarrow> int \<Rightarrow> py_error + int" where
  "py_mod a b = (if b = 0 then Inl ZeroDivisionError else Inr (a mod b))"

text \<open>
  \<^verbatim>\<open>random.choice(seq)\<close>: raises IndexError on an empty sequence, otherwise returns
  \<^verbatim>\<open>seq[i]\<close> for a drawn index \<open>i < len(seq)\<close>. The draw is the argument \<open>r\<close>,
  reduced below the length.
\<close>

definition choice :: "nat \<Rightarrow> 'a list \<Rightarrow> py_error + 'a" where
  "choice r xs = (if xs = [] then Inl IndexError else Inr (xs ! (r mod length xs)))"

section \<open>jmch.py: strength-scaled packets, windowed detection, channel hopping\<close>

datatype line = PacketBlocked int real | PacketSent int | Hopped int

datatype verdict = NoVerdict | JammingDetected real | NetworkStable real

record jmch =
  jammer_active :: bool
  jammer_strength :: real
  sent :: int
  blocked :: int
  success_rate_threshold :: int
  check_interval :: int
  channel :: int
  running :: bool
  success_rate_data :: "real list"
  time_data :: "real list"
  time_counter :: real
  output_box :: "line list"
  result_label :: verdict

text \<open>\<^verbatim>\<open>__init__\<close> together with the empty plot data of \<^verbatim>\<open>setup_graph\<close>.\<close>

definition jmch_init :: jmch where
  "jmch_init = \<lparr> jammer_active = False, jammer_strength = 3 / 10, sent = 0, blocked = 0,
     success_rate_threshold = 70, check_interval = 10, channel = 1, running = True,
     success_rate_data = [], time_data = [], time_counter = 0, output_box = [],
     result_label = NoVerdict \<rparr>"

definition toggle_jammer :: "jmch \<Rightarrow> jmch" where
  "toggle_jammer s = s\<lparr>jammer_active := \<not> jammer_active s\<rparr>"

text \<open>The slider callback \<^verbatim>\<open>setattr(self, 'jammer_strength', float(v))\<close>.\<close>

definition set_jammer_strength :: "real \<Rightarrow> jmch \<Rightarrow> jmch" where
  "set_jammer_strength v s = s\<lparr>jammer_strength := v\<rparr>"

definition on_closing :: "jmch \<Rightarrow> jmch" where
  "on_closing s = s\<lparr>running := False\<rparr>"

text \<open>
  Line 109: \<^verbatim>\<open>is_blocked = self.jammer_active and random.random() < self.jammer_strength\<close>,
  with \<open>u\<close> the value of \<^verbatim>\<open>random.random()\<close>.
\<close>

definition is_blocked :: "jmch \<Rightarrow> real \<Rightarrow> bool" where
  "is_blocked s u = (jammer_active s \<and> u < jammer_strength s)"

text \<open>Lines 111-117: the counter update under the lock.\<close>

definition record_packet :: "int \<Rightarrow> bool \<Rightarrow> jmch \<Rightarrow> jmch" where
  "record_packet pkt_id b s =
     (if b then s\<lparr>blocked := blocked s + 1,
                  output_box := output_box s @ [PacketBlocked pkt_id (jammer_strength s)]\<rparr>
      else s\<lparr>sent := sent s + 1, output_box := output_box s @ [PacketSent pkt_id]\<rparr>)"

definition update_graph :: "jmch \<Rightarrow> py_error + jmch" where
  "update_graph s =
     (let total = sent s + blocked s in
      if total > 0 then
        bind_err (py_truediv (100 * sent s) total) (\<lambda>success_rate.
          Inr (s\<lparr>success_rate_data := success_rate_data s @ [success_rate],
                 time_data := time_data s @ [time_counter s]\<rparr>))
      else Inr s)"

definition available_channels :: "int list" where
  "available_channels = [1, 2, 3, 4, 5, 6, 7, 8, 9, 10, 11]"

definition prevention_action :: "nat \<Rightarrow> jmch \<Rightarrow> py_error + jmch" where
  "prevention_action r s =
     bind_err (choice r (filter (\<lambda>ch. ch \<noteq> channel s) available_channels)) (\<lambda>new_channel.
       Inr (s\<lparr>channel := new_channel, output_box := output_box s @ [Hopped new_channel]\<rparr>))"

text \<open>Line 146: \<^verbatim>\<open>100 * self.sent / total if total > 0 else 100\<close>.\<close>

definition window_success_rate :: "jmch \<Rightarrow> py_error + real" where
  "window_success_rate s =
     (let total = sent s + blocked s in
      if total > 0 then py_truediv (100 * sent s) total else Inr 100)"

definition check_for_jamming :: "nat \<Rightarrow> jmch \<Rightarrow> py_error + jmch" where
  "check_for_jamming r s =
     bind_err (window_success_rate s) (\<lambda>success_rate.
       bind_err
         (if success_rate < real_of_int (success_rate_threshold s)
          then prevention_action r (s\<lparr>result_label := JammingDetected success_rate\<rparr>)
          else Inr (s\<lparr>result_label := NetworkStable success_rate\<rparr>))
         (\<lambda>s'. Inr (s'\<lparr>sent := 0, blocked := 0\<rparr>)))"

text \<open>
  The random draws of one iteration of \<^verbatim>\<open>simulate_packets\<close>: the packet identifier
  \<^verbatim>\<open>random.randint(1000, 9999)\<close>, the delay \<^verbatim>\<open>random.uniform(0.2, 0.5)\<close>, the value of
  \<^verbatim>\<open>random.random()\<close> and the index drawn by \<^verbatim>\<open>random.choice\<close>.
\<close>

record draws =
  randint :: int
  uniform :: real
  random_random :: real
  pick :: nat

text \<open>One iteration of the \<^verbatim>\<open>while self.running\<close> loop (lines 105-129).\<close>

definition simulate_packets_body :: "draws \<Rightarrow> jmch \<Rightarrow> py_error + jmch" where
  "simulate_packets_body d s =
     (let s1 = record_packet (randint d) (is_blocked s (random_random d)) s;
          s2 = s1\<lparr>time_counter := time_counter s1 + uniform d\<rparr>
      in bind_err (update_graph s2) (\<lambda>s3.
           bind_err (py_mod (sent s3 + blocked s3) (check_interval s3)) (\<lambda>m.
             if m = 0 then check_for_jamming (pick d) s3 else Inr s3)))"

text \<open>
  The loop itself, run on a finite supply of draws: it stops when the supply ends, when
  \<open>running\<close> is false at the loop test, or when an iteration raises.
\<close>

fun simulate_packets :: "draws list \<Rightarrow> jmch \<Rightarrow> py_error + jmch" where
  "simulate_packets [] s = Inr s"
| "simulate_packets (d # ds) s =
     (if running s then bind_err (simulate_packets_body d s) (simulate_packets ds) else Inr s)"

text \<open>
  The Tk thread runs the callbacks below while the worker thread runs the loop, so the
  reachable states are those after any sequence of the method-level events of both.
\<close>

datatype jmch_gui = ToggleJammer | SetStrength real | OnClosing

fun jmch_gui_step :: "jmch_gui \<Rightarrow> jmch \<Rightarrow> jmch" where
  "jmch_gui_step ToggleJammer s = toggle_jammer s"
| "jmch_gui_step (SetStrength v) s = set_jammer_strength v s"
| "jmch_gui_step OnClosing s = on_closing s"

datatype jmch_event =
    RecordPacket int real
  | Sleep real
  | UpdateGraph
  | CheckForJamming nat
  | PreventionAction nat
  | Gui jmch_gui

fun jmch_step :: "jmch_event \<Rightarrow> jmch \<Rightarrow> py_error + jmch" where
  "jmch_step (RecordPacket p x) s = Inr (record_packet p (is_blocked s x) s)"
| "jmch_step (Sleep dl) s = Inr (s\<lparr>time_counter := time_counter s + dl\<rparr>)"
| "jmch_step UpdateGraph s = update_graph s"
| "jmch_step (CheckForJamming r) s = check_for_jamming r s"
| "jmch_step (PreventionAction r) s = prevention_action r s"
| "jmch_step (Gui g) s = Inr (jmch_gui_step g s)"

fun jmch_run :: "jmch_event list \<Rightarrow> jmch \<Rightarrow> py_error + jmch" where
  "jmch_run [] s = Inr s"
| "jmch_run (e # es) s = bind_err (jmch_step e s) (jmch_run es)"

section \<open>jammer.py: probability-table packets\<close>

text \<open>
  The \<open>block_prob\<close> entries of \<^verbatim>\<open>self.simulation_params\<close>; the \<^verbatim>\<open>spectrum_func\<close>
  entries only feed the plot.
\<close>

definition simulation_params :: "string \<rightharpoonup> real" where
  "simulation_params =
     [''None'' \<mapsto> 0, ''Noise'' \<mapsto> 6 / 10, ''Repeater'' \<mapsto> 4 / 10,
      ''Tone'' \<mapsto> 7 / 10, ''Pulsed'' \<mapsto> 5 / 10]"

definition status_map :: "string \<rightharpoonup> string" where
  "status_map =
     [''None'' \<mapsto> ''No Jamming'', ''Noise'' \<mapsto> ''Noise Jamming'',
      ''Repeater'' \<mapsto> ''Repeater Jamming'', ''Tone'' \<mapsto> ''Tone Jamming'',
      ''Pulsed'' \<mapsto> ''Pulsed Jamming'']"

datatype fixed_line = Blocked int string | Sent int

text \<open>
  \<open>success_data\<close> and \<open>time_data\<close> are created on first use
  (\<^verbatim>\<open>hasattr(self, 'success_data')\<close>), so an absent attribute is \<open>None\<close>.
\<close>

record fixed =
  jamming_mode :: string
  sent :: int
  blocked :: int
  time_counter :: real
  running :: bool
  success_data :: "real list option"
  time_data :: "real list option"
  output_box :: "fixed_line list"
  status_label :: string

definition fixed_init :: fixed where
  "fixed_init = \<lparr> jamming_mode = ''None'', sent = 0, blocked = 0, time_counter = 0,
     running = True, success_data = None, time_data = None, output_box = [],
     status_label = ''No Jamming'' \<rparr>"

text \<open>Lines 149-158: the counter update under the lock.\<close>

definition count_packet :: "int \<Rightarrow> bool \<Rightarrow> fixed \<Rightarrow> fixed" where
  "count_packet pkt b s =
     (if b then s\<lparr>blocked := blocked s + 1,
                  output_box := output_box s @ [Blocked pkt (jamming_mode s)]\<rparr>
      else s\<lparr>sent := sent s + 1, output_box := output_box s @ [Sent pkt]\<rparr>)"

text \<open>
  Lines 167-178: the success rate and its history. The result is the state reached and
  the exception raised there, if any.
\<close>

definition plot_success :: "fixed \<Rightarrow> fixed \<times> py_error option" where
  "plot_success s =
     (let total = sent s + blocked s in
      if total > 0 then
        (case py_truediv (100 * sent s) total of
           Inl e \<Rightarrow> (s, Some e)
         | Inr success_rate \<Rightarrow>
            (let s1 = (if success_data s = None
                       then s\<lparr>success_data := Some [], time_data := Some []\<rparr> else s)
             in case success_data s1 of
                  None \<Rightarrow> (s1, Some (AttributeError ''success_data''))
                | Some sd \<Rightarrow>
                   (let s2 = s1\<lparr>success_data := Some (sd @ [success_rate])\<rparr>
                    in case time_data s2 of
                         None \<Rightarrow> (s2, Some (AttributeError ''time_data''))
                       | Some td \<Rightarrow> (s2\<lparr>time_data := Some (td @ [time_counter s2])\<rparr>, None))))
      else (s, None))"

text \<open>
  One iteration of the loop of \<^verbatim>\<open>simulate\<close> (lines 141-204), with \<open>pkt\<close> the packet
  identifier and \<open>x\<close> the value of \<^verbatim>\<open>random.random()\<close>.
\<close>

definition simulate_body :: "int \<Rightarrow> real \<Rightarrow> fixed \<Rightarrow> fixed \<times> py_error option" where
  "simulate_body pkt x s =
     (let mode = jamming_mode s in
      case simulation_params mode of
        None \<Rightarrow> (s, Some (KeyError mode))
      | Some block_prob \<Rightarrow>
         (let s1 = count_packet pkt (x < block_prob) s;
              s2 = s1\<lparr>time_counter := time_counter s1 + 4 / 10\<rparr>
          in case plot_success s2 of
               (s3, Some e) \<Rightarrow> (s3, Some e)
             | (s3, None) \<Rightarrow>
                (case status_map mode of
                   None \<Rightarrow> (s3, Some (KeyError mode))
                 | Some txt \<Rightarrow> (s3\<lparr>status_label := txt\<rparr>, None))))"

text \<open>
  \<^verbatim>\<open>while self.running: try: ... except Exception: print(...); break\<close>, on a finite
  supply of draws.
\<close>

fun simulate :: "(int \<times> real) list \<Rightarrow> fixed \<Rightarrow> fixed" where
  "simulate [] s = s"
| "simulate ((pkt, x) # ds) s =
     (if running s then
        (case simulate_body pkt x s of
           (s', Some e) \<Rightarrow> s'
         | (s', None) \<Rightarrow> simulate ds s')
      else s)"

text \<open>The events of jammer.py: a loop iteration, a mode chosen in the combobox, closing.\<close>

datatype fixed_event = Tick int real | SelectMode string | Closing

fun fixed_step :: "fixed_event \<Rightarrow> fixed \<Rightarrow> fixed" where
  "fixed_step (Tick pkt x) s = fst (simulate_body pkt x s)"
| "fixed_step (SelectMode m) s = s\<lparr>jamming_mode := m\<rparr>"
| "fixed_step Closing s = s\<lparr>running := False\<rparr>"

fun fixed_run :: "fixed_event list \<Rightarrow> fixed \<Rightarrow> fixed" where
  "fixed_run [] s = s"
| "fixed_run (e # es) s = fixed_run es (fixed_step e s)"

section \<open>jammer+prevention.py: SNR-derived success rate, three prevention methods\<close>

datatype log_line =
    SnrLine real real int
  | ChannelHop int
  | SpreadSpectrum int
  | AdaptiveFilter real

record adv =
  jammer_strength :: real
  fc :: int
  fs :: int
  duration :: real
  channel :: int
  running :: bool
  success_times :: "real list"
  success_rates :: "real list"
  start_time :: real
  jammer_type_var :: string
  prev_method_var :: string
  console :: "log_line list"

definition adv_init :: adv where
  "adv_init = \<lparr> jammer_strength = 5, fc = 50, fs = 1000, duration = 1, channel = 6,
     running = False, success_times = [], success_rates = [], start_time = 0,
     jammer_type_var = ''Noise'', prev_method_var = ''Channel Hopping'', console = [] \<rparr>"

text \<open>
  \<^verbatim>\<open>np.linspace(start, stop, num)\<close> with the end point included, \<^verbatim>\<open>np.mean\<close> and
  \<^verbatim>\<open>np.clip\<close> (\<open>minimum(maximum(x, lo), hi)\<close>).
\<close>

definition linspace :: "real \<Rightarrow> real \<Rightarrow> nat \<Rightarrow> real list" where
  "linspace start stop num =
     map (\<lambda>i. start + real i * ((stop - start) / real (num - 1))) [0..<num]"

definition mean :: "real list \<Rightarrow> real" where
  "mean xs = sum_list xs / real (length xs)"

definition clip :: "real \<Rightarrow> real \<Rightarrow> real \<Rightarrow> real" where
  "clip x lo hi = min (max x lo) hi"

text \<open>
  \<^verbatim>\<open>_generate_signal(t)\<close>; \<open>randn i\<close> is the \<open>i\<close>-th sample of
  \<^verbatim>\<open>np.random.randn(len(t))\<close>. \<^verbatim>\<open>jammer[::50] = v\<close> writes \<open>v\<close> at the indices that are
  multiples of 50.
\<close>

definition generate_signal :: "(nat \<Rightarrow> real) \<Rightarrow> real list \<Rightarrow> adv \<Rightarrow> real list \<times> real list" where
  "generate_signal randn t s =
     (let signal = map (\<lambda>x. sin (2 * pi * real_of_int (fc s) * x)) t;
          jammer =
            (if jammer_type_var s = ''Noise'' then
               map (\<lambda>i. jammer_strength s * randn i) [0..<length t]
             else if jammer_type_var s = ''Tone'' then
               map (\<lambda>x. jammer_strength s * sin (2 * pi * real_of_int (fc s) * x)) t
             else if jammer_type_var s = ''Pulsed'' then
               map (\<lambda>i. if i mod 50 = 0 then jammer_strength s * 2 else 0) [0..<length t]
             else
               map (\<lambda>x. jammer_strength s * sin (2 * pi * (50 + 30 * x) * x)) t)
      in (signal, jammer))"

text \<open>Lines 171-172.\<close>

definition snr_of :: "real list \<Rightarrow> real list \<Rightarrow> real" where
  "snr_of signal jammer =
     mean (map (\<lambda>x. x ^ 2) signal) / (mean (map (\<lambda>x. x ^ 2) jammer) + 1 / 1000000)"

definition success_rate_of :: "real \<Rightarrow> real" where
  "success_rate_of snr = 100 * clip (snr / 10) 0 1"

text \<open>
  Lines 176-183: append to both histories, then drop the oldest entry of each when
  \<^verbatim>\<open>len(self.success_times) > 100\<close>.
\<close>

definition store_sample :: "real \<Rightarrow> real \<Rightarrow> adv \<Rightarrow> adv" where
  "store_sample current_time success_rate s =
     (let s1 = s\<lparr>success_times := success_times s @ [current_time],
                  success_rates := success_rates s @ [success_rate]\<rparr>
      in if length (success_times s1) > 100
         then s1\<lparr>success_times := drop 1 (success_times s1),
                 success_rates := drop 1 (success_rates s1)\<rparr>
         else s1)"

text \<open>
  One iteration of the loop of \<^verbatim>\<open>_run_simulation\<close>: \<open>now\<close> is \<^verbatim>\<open>time.time()\<close>.
  Nothing in it raises in this model, so the \<^verbatim>\<open>except\<close> branch has no counterpart.
\<close>

definition run_simulation_body :: "(nat \<Rightarrow> real) \<Rightarrow> real \<Rightarrow> real list \<Rightarrow> adv \<Rightarrow> adv" where
  "run_simulation_body randn now t s =
     (let (signal, jammer) = generate_signal randn t s;
          snr = snr_of signal jammer;
          success_rate = success_rate_of snr;
          current_time = now - start_time s;
          s1 = store_sample current_time success_rate s
      in s1\<lparr>console := console s1 @ [SnrLine snr success_rate (channel s1)]\<rparr>)"

fun run_simulation_loop :: "((nat \<Rightarrow> real) \<times> real) list \<Rightarrow> real list \<Rightarrow> adv \<Rightarrow> adv" where
  "run_simulation_loop [] t s = s"
| "run_simulation_loop ((randn, now) # ds) t s =
     (if running s then run_simulation_loop ds t (run_simulation_body randn now t s) else s)"

text \<open>\<^verbatim>\<open>_run_simulation\<close>: the time grid is computed once, before the loop.\<close>

definition run_simulation :: "((nat \<Rightarrow> real) \<times> real) list \<Rightarrow> adv \<Rightarrow> adv" where
  "run_simulation ds s =
     run_simulation_loop ds
       (linspace 0 (duration s) (nat (floor (real_of_int (fs s) * duration s)))) s"

text \<open>\<^verbatim>\<open>start_simulation\<close> (without the thread it spawns) and \<^verbatim>\<open>stop_simulation\<close>.\<close>

definition start_simulation :: "real \<Rightarrow> adv \<Rightarrow> adv" where
  "start_simulation now s =
     (if \<not> running s
      then s\<lparr>running := True, success_times := [], success_rates := [], start_time := now\<rparr>
      else s)"

definition stop_simulation :: "adv \<Rightarrow> adv" where
  "stop_simulation s = s\<lparr>running := False\<rparr>"

text \<open>
  \<^verbatim>\<open>apply_prevention\<close>; \<open>r\<close> is the index drawn by \<^verbatim>\<open>random.choice\<close>.
  \<^verbatim>\<open>range(1, 12)\<close> is \<open>[1..11]\<close>. The source multiplies the strength by 0.7 and
  applies no bound of its own; the call \<^verbatim>\<open>self.strength_slider.set(...)\<close> belongs to the
  widget.
\<close>

definition apply_prevention :: "nat \<Rightarrow> adv \<Rightarrow> py_error + adv" where
  "apply_prevention r s =
     (let method = prev_method_var s in
      if method = ''Channel Hopping'' then
        bind_err (choice r (filter (\<lambda>ch. ch \<noteq> channel s) [1..11])) (\<lambda>new_channel.
          Inr (s\<lparr>channel := new_channel, console := console s @ [ChannelHop new_channel]\<rparr>))
      else if method = ''Spread Spectrum'' then
        bind_err (choice r [40, 45, 50, 55, 60]) (\<lambda>f.
          Inr (s\<lparr>fc := f, console := console s @ [SpreadSpectrum f]\<rparr>))
      else if method = ''Adaptive Filter'' then
        (let s1 = s\<lparr>jammer_strength := jammer_strength s * (7 / 10)\<rparr>
         in Inr (s1\<lparr>console := console s1 @ [AdaptiveFilter (jammer_strength s1)]\<rparr>))
      else Inr s)"


text \<open>The callbacks of the Tk thread; \<open>StartSimulation now\<close> is the state change of
  \<^verbatim>\<open>start_simulation\<close> at time \<open>now\<close>.\<close>

datatype adv_gui =
    StartSimulation real
  | StopSimulation
  | ApplyPrevention nat
  | MoveStrengthSlider real
  | SelectJammerType string
  | SelectPrevMethod string

fun adv_gui_step :: "adv_gui \<Rightarrow> adv \<Rightarrow> adv" where
  "adv_gui_step (StartSimulation now) s = start_simulation now s"
| "adv_gui_step StopSimulation s = stop_simulation s"
| "adv_gui_step (ApplyPrevention r) s = (case apply_prevention r s of Inl e \<Rightarrow> s | Inr s' \<Rightarrow> s')"
| "adv_gui_step (MoveStrengthSlider v) s = s\<lparr>jammer_strength := v\<rparr>"
| "adv_gui_step (SelectJammerType m) s = s\<lparr>jammer_type_var := m\<rparr>"
| "adv_gui_step (SelectPrevMethod m) s = s\<lparr>prev_method_var := m\<rparr>"

section \<open>The worker thread and the stop flag\<close>

text \<open>
  All three loops have the shape \<^verbatim>\<open>while self.running: body\<close>; the body never reads or
  writes \<open>running\<close>, and an exception ends the thread (jmch.py) or breaks out of the
  loop (the other two). The worker is therefore at the loop test, inside the body, or
  gone. A schedule interleaves worker steps with callbacks of the Tk thread; the two
  counters record how many iterations were begun and completed.
\<close>

datatype pc = LoopTest | InBody | Exited

record 'st worker =
  pc :: pc
  state :: 'st
  ticks_begun :: nat
  ticks_done :: nat

definition worker_step :: "('st \<Rightarrow> bool) \<Rightarrow> ('st \<Rightarrow> py_error + 'st) \<Rightarrow> 'st worker \<Rightarrow> 'st worker" where
  "worker_step is_running body w =
     (case pc w of
        LoopTest \<Rightarrow>
          (if is_running (state w) then w\<lparr>pc := InBody, ticks_begun := ticks_begun w + 1\<rparr>
           else w\<lparr>pc := Exited\<rparr>)
      | InBody \<Rightarrow>
          (case body (state w) of
             Inl e \<Rightarrow> w\<lparr>pc := Exited\<rparr>
           | Inr s' \<Rightarrow> w\<lparr>pc := LoopTest, state := s', ticks_done := ticks_done w + 1\<rparr>)
      | Exited \<Rightarrow> w)"

datatype ('d, 'g) action = WorkerStep 'd | GuiStep 'g

fun run_threads ::
  "('st \<Rightarrow> bool) \<Rightarrow> ('d \<Rightarrow> 'st \<Rightarrow> py_error + 'st) \<Rightarrow> ('g \<Rightarrow> 'st \<Rightarrow> 'st) \<Rightarrow>
   ('d, 'g) action list \<Rightarrow> 'st worker \<Rightarrow> 'st worker" where
  "run_threads is_running body gui [] w = w"
| "run_threads is_running body gui (WorkerStep d # as) w =
     run_threads is_running body gui as (worker_step is_running (body d) w)"
| "run_threads is_running body gui (GuiStep g # as) w =
     run_threads is_running body gui as (w\<lparr>state := gui g (state w)\<rparr>)"

fun worker_steps :: "('d, 'g) action list \<Rightarrow> nat" where
  "worker_steps [] = 0"
| "worker_steps (WorkerStep d # as) = Suc (worker_steps as)"
| "worker_steps (GuiStep g # as) = worker_steps as"

fun gui_steps :: "('d, 'g) action list \<Rightarrow> 'g list" where
  "gui_steps [] = []"
| "gui_steps (WorkerStep d # as) = gui_steps as"
| "gui_steps (GuiStep g # as) = g # gui_steps as"

text \<open>How many worker steps a worker that finds the flag false needs to be gone.\<close>

definition steps_to_exit :: "'st worker \<Rightarrow> nat" where
  "steps_to_exit w = (case pc w of LoopTest \<Rightarrow> 1 | InBody \<Rightarrow> 2 | Exited \<Rightarrow> 0)"

definition jmch_threads :: "(draws, jmch_gui) action list \<Rightarrow> jmch worker \<Rightarrow> jmch worker" where
  "jmch_threads = run_threads jmch.running simulate_packets_body jmch_gui_step"

text \<open>The time grid \<open>t\<close> is fixed when the thread starts.\<close>

definition adv_threads ::
  "real list \<Rightarrow> ((nat \<Rightarrow> real) \<times> real, adv_gui) action list \<Rightarrow> adv worker \<Rightarrow> adv worker" where
  "adv_threads t =
     run_threads adv.running (\<lambda>(randn, now) s. Inr (run_simulation_body randn now t s))
       adv_gui_step"

section \<open>Invariants\<close>

definition in_percent :: "real \<Rightarrow> bool" where
  "in_percent r = (0 \<le> r \<and> r \<le> 100)"

text \<open>
  What every reachable state of jmch.py satisfies: the counters are never negative, the
  check interval keeps its initial value, every plotted rate is a percentage.
\<close>

definition jmch_inv :: "jmch \<Rightarrow> bool" where
  "jmch_inv s = (0 \<le> jmch.sent s \<and> 0 \<le> jmch.blocked s \<and> check_interval s = 10
     \<and> list_all in_percent (success_rate_data s))"

definition fixed_inv :: "fixed \<Rightarrow> bool" where
  "fixed_inv s = (0 \<le> fixed.sent s \<and> 0 \<le> fixed.blocked s
     \<and> (success_data s = None) = (fixed.time_data s = None)
     \<and> (case success_data s of None \<Rightarrow> True | Some sd \<Rightarrow> list_all in_percent sd))"

section \<open>Facts about jmch.py\<close>

lemma choice_filter_ne:
  "\<exists>c. choice r (filter (\<lambda>ch. ch \<noteq> cur) available_channels) = Inr c
       \<and> c \<in> set available_channels \<and> c \<noteq> cur"
proof -
  let ?cs = "filter (\<lambda>ch. ch \<noteq> cur) available_channels"
  have ne: "?cs \<noteq> []"
  proof (cases "cur = 1")
    case True
    then show ?thesis by (simp add: available_channels_def)
  next
    case False
    then show ?thesis by (simp add: available_channels_def)
  qed
  then have "r mod length ?cs < length ?cs" by simp
  then have "?cs ! (r mod length ?cs) \<in> set ?cs" by (rule nth_mem)
  then have "?cs ! (r mod length ?cs) \<in> set available_channels \<and> ?cs ! (r mod length ?cs) \<noteq> cur"
    by simp
  with ne show ?thesis by (simp add: choice_def)
qed

lemma bind_err_Inr [simp]: "bind_err (Inr x) f = f x"
  by (simp add: bind_err_def)

lemma bind_err_Inl [simp]: "bind_err (Inl e) f = Inl e"
  by (simp add: bind_err_def)

lemma prevention_action_ok:
  "\<exists>c. prevention_action r s
         = Inr (s\<lparr>jmch.channel := c, jmch.output_box := jmch.output_box s @ [Hopped c]\<rparr>)
       \<and> c \<in> set available_channels \<and> c \<noteq> jmch.channel s"
proof -
  obtain c where c: "choice r (filter (\<lambda>ch. ch \<noteq> jmch.channel s) available_channels) = Inr c"
    "c \<in> set available_channels" "c \<noteq> jmch.channel s"
    using choice_filter_ne by blast
  then show ?thesis by (auto simp: prevention_action_def)
qed

lemma upto_1_11: "[1..11] = available_channels"
  by (simp add: available_channels_def upto.simps)

lemma set_available_channels: "set available_channels = {1..11}"
  unfolding upto_1_11 [symmetric] by (rule set_upto)

lemma window_success_rate_ok:
  "window_success_rate s =
     Inr (if jmch.sent s + jmch.blocked s > 0
          then real_of_int (100 * jmch.sent s) / real_of_int (jmch.sent s + jmch.blocked s) else 100)"
  by (simp add: window_success_rate_def py_truediv_def Let_def)

lemma apply_prevention_hop_ok:
  assumes "adv.prev_method_var a = ''Channel Hopping''"
  shows "\<exists>c. apply_prevention r a
         = Inr (a\<lparr>adv.channel := c, adv.console := adv.console a @ [ChannelHop c]\<rparr>)
       \<and> c \<in> {1..11} \<and> c \<noteq> adv.channel a"
proof -
  obtain c where c: "choice r (filter (\<lambda>ch. ch \<noteq> adv.channel a) available_channels) = Inr c"
    "c \<in> set available_channels" "c \<noteq> adv.channel a"
    using choice_filter_ne by blast
  with assms show ?thesis
    by (auto simp: apply_prevention_def upto_1_11 set_available_channels)
qed

text \<open>
  C2. Channel hopping, in jmch.py (\<^verbatim>\<open>prevention_action\<close>) and in jammer+prevention.py
  (the Channel Hopping branch of \<^verbatim>\<open>apply_prevention\<close>): whatever the current channel
  and whatever index is drawn, the list of candidates is not empty, the call returns,
  and the new channel lies in 1..11 and differs from the current one.
\<close>

theorem channel_hop_selects_other_channel:
  "filter (\<lambda>ch. ch \<noteq> cur) available_channels \<noteq> []
   \<and> (\<exists>s'. prevention_action r s = Inr s'
            \<and> jmch.channel s' \<in> {1..11} \<and> jmch.channel s' \<noteq> jmch.channel s)
   \<and> (adv.prev_method_var a = ''Channel Hopping'' \<longrightarrow>
        (\<exists>a'. apply_prevention r a = Inr a'
            \<and> adv.channel a' \<in> {1..11} \<and> adv.channel a' \<noteq> adv.channel a))"
proof (intro conjI impI)
  show "filter (\<lambda>ch. ch \<noteq> cur) available_channels \<noteq> []"
    using choice_filter_ne [of 0 cur] by (auto simp: choice_def split: if_splits)
next
  obtain c where "prevention_action r s
         = Inr (s\<lparr>jmch.channel := c, jmch.output_box := jmch.output_box s @ [Hopped c]\<rparr>)"
       "c \<in> set available_channels" "c \<noteq> jmch.channel s"
    using prevention_action_ok by blast
  then show "\<exists>s'. prevention_action r s = Inr s'
            \<and> jmch.channel s' \<in> {1..11} \<and> jmch.channel s' \<noteq> jmch.channel s"
    by (simp add: set_available_channels)
next
  assume "adv.prev_method_var a = ''Channel Hopping''"
  from apply_prevention_hop_ok [OF this, of r]
  show "\<exists>a'. apply_prevention r a = Inr a'
            \<and> adv.channel a' \<in> {1..11} \<and> adv.channel a' \<noteq> adv.channel a"
    by auto
qed

theorem channel_hop_selects_other_channel_witness:
  "adv.prev_method_var adv_init = ''Channel Hopping''
   \<and> (\<exists>s'. prevention_action 3 jmch_init = Inr s'
            \<and> jmch.channel s' \<in> {1..11} \<and> jmch.channel s' \<noteq> jmch.channel jmch_init)
   \<and> (\<exists>a'. apply_prevention 3 adv_init = Inr a'
            \<and> adv.channel a' \<in> {1..11} \<and> adv.channel a' \<noteq> adv.channel adv_init)"
  using channel_hop_selects_other_channel [of 1 3 jmch_init adv_init]
  by (simp add: adv_init_def)

lemma check_for_jamming_ok:
  "\<exists>c. c \<in> set available_channels \<and> c \<noteq> jmch.channel s \<and>
     check_for_jamming r s =
       Inr (let rate = (if jmch.sent s + jmch.blocked s > 0
                        then real_of_int (100 * jmch.sent s) / real_of_int (jmch.sent s + jmch.blocked s)
                        else 100)
            in if rate < real_of_int (success_rate_threshold s)
               then s\<lparr>jmch.sent := 0, jmch.blocked := 0, jmch.channel := c,
                       jmch.output_box := jmch.output_box s @ [Hopped c],
                       result_label := JammingDetected rate\<rparr>
               else s\<lparr>jmch.sent := 0, jmch.blocked := 0, result_label := NetworkStable rate\<rparr>)"
proof -
  let ?rate = "if jmch.sent s + jmch.blocked s > 0
               then real_of_int (100 * jmch.sent s) / real_of_int (jmch.sent s + jmch.blocked s)
               else 100"
  obtain c where c: "prevention_action r (s\<lparr>result_label := JammingDetected ?rate\<rparr>)
         = Inr (s\<lparr>result_label := JammingDetected ?rate, jmch.channel := c,
                  jmch.output_box := jmch.output_box s @ [Hopped c]\<rparr>)"
       "c \<in> set available_channels" "c \<noteq> jmch.channel s"
    using prevention_action_ok [of r "s\<lparr>result_label := JammingDetected ?rate\<rparr>"] by auto
  have "check_for_jamming r s =
       Inr (if ?rate < real_of_int (success_rate_threshold s)
               then s\<lparr>jmch.sent := 0, jmch.blocked := 0, jmch.channel := c,
                       jmch.output_box := jmch.output_box s @ [Hopped c],
                       result_label := JammingDetected ?rate\<rparr>
               else s\<lparr>jmch.sent := 0, jmch.blocked := 0, result_label := NetworkStable ?rate\<rparr>)"
    unfolding check_for_jamming_def window_success_rate_ok bind_err_Inr
    using c(1) by simp
  with c(2,3) show ?thesis by (auto simp: Let_def)
qed

text \<open>
  C4. In a periodic evaluation (\<^verbatim>\<open>check_for_jamming\<close>) the prevention action runs exactly
  when the windowed success rate is strictly below the threshold: then the channel
  changes and the hop is logged; otherwise neither the channel nor the log changes.
\<close>

theorem mitigation_iff_below_threshold:
  "\<exists>rate s'. window_success_rate s = Inr rate \<and> check_for_jamming r s = Inr s'
     \<and> ((jmch.channel s' \<noteq> jmch.channel s) = (rate < real_of_int (success_rate_threshold s)))
     \<and> ((jmch.output_box s' = jmch.output_box s @ [Hopped (jmch.channel s')])
          = (rate < real_of_int (success_rate_threshold s)))
     \<and> ((jmch.channel s' = jmch.channel s \<and> jmch.output_box s' = jmch.output_box s
          \<and> result_label s' = NetworkStable rate)
          = (real_of_int (success_rate_threshold s) \<le> rate))"
proof -
  obtain c where c: "c \<in> set available_channels" "c \<noteq> jmch.channel s"
     "check_for_jamming r s =
       Inr (let rate = (if jmch.sent s + jmch.blocked s > 0
                        then real_of_int (100 * jmch.sent s) / real_of_int (jmch.sent s + jmch.blocked s)
                        else 100)
            in if rate < real_of_int (success_rate_threshold s)
               then s\<lparr>jmch.sent := 0, jmch.blocked := 0, jmch.channel := c,
                       jmch.output_box := jmch.output_box s @ [Hopped c],
                       result_label := JammingDetected rate\<rparr>
               else s\<lparr>jmch.sent := 0, jmch.blocked := 0, result_label := NetworkStable rate\<rparr>)"
    using check_for_jamming_ok by blast
  show ?thesis
    unfolding window_success_rate_ok c(3) using c(2) by (auto simp: Let_def)
qed

text \<open>
  C5. Every evaluation returns, and leaves both running counters at zero, whether or
  not the prevention action ran.
\<close>

theorem counters_reset_after_check:
  "\<exists>s'. check_for_jamming r s = Inr s' \<and> jmch.sent s' = 0 \<and> jmch.blocked s' = 0"
proof -
  obtain c where "check_for_jamming r s =
       Inr (let rate = (if jmch.sent s + jmch.blocked s > 0
                        then real_of_int (100 * jmch.sent s) / real_of_int (jmch.sent s + jmch.blocked s)
                        else 100)
            in if rate < real_of_int (success_rate_threshold s)
               then s\<lparr>jmch.sent := 0, jmch.blocked := 0, jmch.channel := c,
                       jmch.output_box := jmch.output_box s @ [Hopped c],
                       result_label := JammingDetected rate\<rparr>
               else s\<lparr>jmch.sent := 0, jmch.blocked := 0, result_label := NetworkStable rate\<rparr>)"
    using check_for_jamming_ok by blast
  then show ?thesis by (simp add: Let_def)
qed

lemma rate_in_percent:
  assumes "0 \<le> a" "0 \<le> b" "0 < a + b"
  shows "in_percent (real_of_int (100 * a) / real_of_int (a + b))"
proof -
  have pos: "0 < real_of_int (a + b)" using assms(3) by simp
  have "real_of_int (100 * a) \<le> 100 * real_of_int (a + b)" using assms(2) by simp
  then have "real_of_int (100 * a) / real_of_int (a + b) \<le> 100"
    using pos by (simp add: pos_divide_le_eq)
  moreover have "0 \<le> real_of_int (100 * a) / real_of_int (a + b)"
    using assms(1) pos by simp
  ultimately show ?thesis by (simp add: in_percent_def)
qed

lemma update_graph_ok:
  "update_graph s =
     Inr (if jmch.sent s + jmch.blocked s > 0
          then s\<lparr>success_rate_data := success_rate_data s
                    @ [real_of_int (100 * jmch.sent s) / real_of_int (jmch.sent s + jmch.blocked s)],
                  jmch.time_data := jmch.time_data s @ [jmch.time_counter s]\<rparr>
          else s)"
  by (simp add: update_graph_def py_truediv_def Let_def)

lemma window_rate_in_percent:
  assumes "jmch_inv s"
  shows "\<exists>rate. window_success_rate s = Inr rate \<and> in_percent rate"
proof (cases "jmch.sent s + jmch.blocked s > 0")
  case True
  with assms show ?thesis
    using rate_in_percent [of "jmch.sent s" "jmch.blocked s"]
    by (simp add: window_success_rate_ok jmch_inv_def)
next
  case False
  then show ?thesis by (simp add: window_success_rate_ok in_percent_def)
qed

lemma record_packet_inv: "jmch_inv s \<Longrightarrow> jmch_inv (record_packet p b s)"
  by (simp add: jmch_inv_def record_packet_def)

lemma update_graph_inv:
  assumes "jmch_inv s"
  shows "\<exists>s'. update_graph s = Inr s' \<and> jmch_inv s'"
proof (cases "jmch.sent s + jmch.blocked s > 0")
  case True
  with assms have "in_percent (real_of_int (100 * jmch.sent s) / real_of_int (jmch.sent s + jmch.blocked s))"
    using rate_in_percent [of "jmch.sent s" "jmch.blocked s"] by (simp add: jmch_inv_def)
  with True assms show ?thesis by (simp add: update_graph_ok jmch_inv_def)
next
  case False
  with assms show ?thesis by (simp add: update_graph_ok)
qed

lemma prevention_action_inv:
  assumes "jmch_inv s"
  shows "\<exists>s'. prevention_action r s = Inr s' \<and> jmch_inv s'"
proof -
  obtain c where "prevention_action r s
         = Inr (s\<lparr>jmch.channel := c, jmch.output_box := jmch.output_box s @ [Hopped c]\<rparr>)"
    using prevention_action_ok by blast
  with assms show ?thesis by (simp add: jmch_inv_def)
qed

lemma check_for_jamming_inv:
  assumes "jmch_inv s"
  shows "\<exists>s'. check_for_jamming r s = Inr s' \<and> jmch_inv s'"
proof -
  obtain c where "check_for_jamming r s =
       Inr (let rate = (if jmch.sent s + jmch.blocked s > 0
                        then real_of_int (100 * jmch.sent s) / real_of_int (jmch.sent s + jmch.blocked s)
                        else 100)
            in if rate < real_of_int (success_rate_threshold s)
               then s\<lparr>jmch.sent := 0, jmch.blocked := 0, jmch.channel := c,
                       jmch.output_box := jmch.output_box s @ [Hopped c],
                       result_label := JammingDetected rate\<rparr>
               else s\<lparr>jmch.sent := 0, jmch.blocked := 0, result_label := NetworkStable rate\<rparr>)"
    using check_for_jamming_ok by blast
  with assms show ?thesis by (simp add: jmch_inv_def Let_def)
qed

lemma jmch_gui_step_inv: "jmch_inv s \<Longrightarrow> jmch_inv (jmch_gui_step g s)"
  by (cases g) (simp_all add: jmch_inv_def toggle_jammer_def set_jammer_strength_def on_closing_def)

lemma jmch_step_inv:
  assumes "jmch_inv s"
  shows "\<exists>s'. jmch_step e s = Inr s' \<and> jmch_inv s'"
proof (cases e)
  case (RecordPacket p x)
  with assms show ?thesis by (simp add: record_packet_inv)
next
  case (Sleep dl)
  with assms show ?thesis by (simp add: jmch_inv_def)
next
  case UpdateGraph
  with assms show ?thesis by (simp add: update_graph_inv)
next
  case (CheckForJamming r)
  with assms show ?thesis by (simp add: check_for_jamming_inv)
next
  case (PreventionAction r)
  with assms show ?thesis by (simp add: prevention_action_inv)
next
  case (Gui g)
  with assms show ?thesis by (simp add: jmch_gui_step_inv)
qed

lemma jmch_run_inv:
  "jmch_inv s \<Longrightarrow> \<exists>s'. jmch_run es s = Inr s' \<and> jmch_inv s'"
proof (induction es arbitrary: s)
  case Nil
  then show ?case by simp
next
  case (Cons e es)
  from jmch_step_inv [OF Cons.prems, of e]
  obtain s1 where s1: "jmch_step e s = Inr s1" "jmch_inv s1" by blast
  from Cons.IH [OF s1(2)] s1(1) show ?case by simp
qed

lemma jmch_init_inv: "jmch_inv jmch_init"
  by (simp add: jmch_inv_def jmch_init_def)

lemma simulate_packets_body_inv:
  assumes "jmch_inv s"
  shows "\<exists>s'. simulate_packets_body d s = Inr s' \<and> jmch_inv s'"
proof -
  let ?s1 = "record_packet (randint d) (is_blocked s (random_random d)) s"
  let ?s2 = "?s1\<lparr>jmch.time_counter := jmch.time_counter ?s1 + uniform d\<rparr>"
  have "jmch_inv ?s2" using record_packet_inv [OF assms] by (simp add: jmch_inv_def)
  from update_graph_inv [OF this]
  obtain s3 where s3: "update_graph ?s2 = Inr s3" "jmch_inv s3" by blast
  then have ci: "check_interval s3 = 10" by (simp add: jmch_inv_def)
  obtain s4 where s4: "check_for_jamming (pick d) s3 = Inr s4" "jmch_inv s4"
    using check_for_jamming_inv [OF s3(2)] by blast
  show ?thesis
    using s3 s4 ci by (simp add: simulate_packets_body_def Let_def py_mod_def)
qed

lemma simulate_packets_inv:
  "jmch_inv s \<Longrightarrow> \<exists>s'. simulate_packets ds s = Inr s' \<and> jmch_inv s'"
proof (induction ds arbitrary: s)
  case Nil
  then show ?case by simp
next
  case (Cons d ds)
  from simulate_packets_body_inv [OF Cons.prems, of d]
  obtain s1 where s1: "simulate_packets_body d s = Inr s1" "jmch_inv s1" by blast
  from Cons.IH [OF s1(2)] s1(1) Cons.prems show ?case by simp
qed

section \<open>Facts about jammer.py\<close>

lemma plot_success_shape:
  "\<exists>sd td e. plot_success s = (s\<lparr>success_data := sd, fixed.time_data := td\<rparr>, e)
      \<and> e \<noteq> Some ZeroDivisionError"
proof (cases "fixed.sent s + fixed.blocked s > 0")
  case False
  then have "plot_success s = (s\<lparr>success_data := success_data s, fixed.time_data := fixed.time_data s\<rparr>, None)"
    by (simp add: plot_success_def Let_def)
  then show ?thesis by blast
next
  case True
  show ?thesis
  proof (cases "success_data s")
    case None
    then have "plot_success s = (s\<lparr>success_data := Some [real_of_int (100 * fixed.sent s) / real_of_int (fixed.sent s + fixed.blocked s)],
        fixed.time_data := Some [fixed.time_counter s]\<rparr>, None)"
      using True by (simp add: plot_success_def Let_def py_truediv_def)
    then show ?thesis by blast
  next
    case (Some sd)
    show ?thesis
    proof (cases "fixed.time_data s")
      case None
      then have "plot_success s = (s\<lparr>success_data := Some (sd @ [real_of_int (100 * fixed.sent s) / real_of_int (fixed.sent s + fixed.blocked s)]),
        fixed.time_data := None\<rparr>, Some (AttributeError ''time_data''))"
        using True Some by (simp add: plot_success_def Let_def py_truediv_def)
      then show ?thesis by blast
    next
      case (Some td)
      then have "plot_success s = (s\<lparr>success_data := Some (sd @ [real_of_int (100 * fixed.sent s) / real_of_int (fixed.sent s + fixed.blocked s)]),
        fixed.time_data := Some (td @ [fixed.time_counter s])\<rparr>, None)"
        using True \<open>success_data s = Some sd\<close> by (simp add: plot_success_def Let_def py_truediv_def)
      then show ?thesis by blast
    qed
  qed
qed


lemma plot_success_keeps:
  "fixed.sent (fst (plot_success s)) = fixed.sent s"
  "fixed.blocked (fst (plot_success s)) = fixed.blocked s"
  "fixed.output_box (fst (plot_success s)) = fixed.output_box s"
  "jamming_mode (fst (plot_success s)) = jamming_mode s"
  "fixed.running (fst (plot_success s)) = fixed.running s"
proof -
  obtain sd td e where "plot_success s = (s\<lparr>success_data := sd, fixed.time_data := td\<rparr>, e)"
    using plot_success_shape by blast
  then have eq: "fst (plot_success s) = s\<lparr>success_data := sd, fixed.time_data := td\<rparr>" by simp
  show "fixed.sent (fst (plot_success s)) = fixed.sent s" unfolding eq by simp
  show "fixed.blocked (fst (plot_success s)) = fixed.blocked s" unfolding eq by simp
  show "fixed.output_box (fst (plot_success s)) = fixed.output_box s" unfolding eq by simp
  show "jamming_mode (fst (plot_success s)) = jamming_mode s" unfolding eq by simp
  show "fixed.running (fst (plot_success s)) = fixed.running s" unfolding eq by simp
qed

lemma plot_success_no_zero_division: "snd (plot_success s) \<noteq> Some ZeroDivisionError"
  using plot_success_shape [of s] by auto

lemma plot_success_inv:
  assumes "fixed_inv s"
  shows "snd (plot_success s) = None \<and> fixed_inv (fst (plot_success s))"
proof (cases "fixed.sent s + fixed.blocked s > 0")
  case False
  with assms show ?thesis by (simp add: plot_success_def Let_def)
next
  case True
  with assms have pc: "in_percent (real_of_int (100 * fixed.sent s) / real_of_int (fixed.sent s + fixed.blocked s))"
    using rate_in_percent [of "fixed.sent s" "fixed.blocked s"] by (simp add: fixed_inv_def)
  show ?thesis
  proof (cases "success_data s")
    case None
    then have "plot_success s = (s\<lparr>success_data := Some [real_of_int (100 * fixed.sent s) / real_of_int (fixed.sent s + fixed.blocked s)],
        fixed.time_data := Some [fixed.time_counter s]\<rparr>, None)"
      using True by (simp add: plot_success_def Let_def py_truediv_def)
    with assms pc show ?thesis by (simp add: fixed_inv_def)
  next
    case (Some sd)
    with assms obtain td where td: "fixed.time_data s = Some td"
      by (auto simp: fixed_inv_def)
    then have "plot_success s = (s\<lparr>success_data := Some (sd @ [real_of_int (100 * fixed.sent s) / real_of_int (fixed.sent s + fixed.blocked s)]),
        fixed.time_data := Some (td @ [fixed.time_counter s])\<rparr>, None)"
      using True Some by (simp add: plot_success_def Let_def py_truediv_def)
    with assms pc Some show ?thesis by (simp add: fixed_inv_def)
  qed
qed

lemma count_packet_inv: "fixed_inv s \<Longrightarrow> fixed_inv (count_packet pkt b s)"
  by (simp add: fixed_inv_def count_packet_def)

lemma simulate_body_inv:
  assumes "fixed_inv s"
  shows "fixed_inv (fst (simulate_body pkt x s))"
proof (cases "simulation_params (jamming_mode s)")
  case None
  with assms show ?thesis by (simp add: simulate_body_def)
next
  case (Some p)
  let ?s1 = "count_packet pkt (x < p) s"
  let ?s2 = "?s1\<lparr>fixed.time_counter := fixed.time_counter ?s1 + 4 / 10\<rparr>"
  have "fixed_inv ?s2" using count_packet_inv [OF assms, of pkt "x < p"] by (simp add: fixed_inv_def)
  from plot_success_inv [OF this]
  have ps: "snd (plot_success ?s2) = None" "fixed_inv (fst (plot_success ?s2))" by simp_all
  then have inv': "fixed_inv (fst (plot_success ?s2)\<lparr>status_label := lbl\<rparr>)" for lbl
    by (simp add: fixed_inv_def)
  obtain s3 where s3: "plot_success ?s2 = (s3, None)" using ps(1) by (cases "plot_success ?s2") simp
  with ps(2) inv' Some show ?thesis
    by (cases "status_map (jamming_mode s)") (simp_all add: simulate_body_def Let_def)
qed

lemma fixed_step_inv: "fixed_inv s \<Longrightarrow> fixed_inv (fixed_step e s)"
proof (cases e)
  case (Tick pkt x)
  assume "fixed_inv s"
  with Tick show ?thesis by (simp add: simulate_body_inv)
next
  case (SelectMode m)
  assume "fixed_inv s"
  with SelectMode show ?thesis by (simp add: fixed_inv_def)
next
  case Closing
  assume "fixed_inv s"
  with Closing show ?thesis by (simp add: fixed_inv_def)
qed

lemma fixed_run_inv: "fixed_inv s \<Longrightarrow> fixed_inv (fixed_run es s)"
  by (induction es arbitrary: s) (simp_all add: fixed_step_inv)

lemma fixed_init_inv: "fixed_inv fixed_init"
  by (simp add: fixed_inv_def fixed_init_def)

lemma simulate_body_shape:
  assumes "simulation_params (jamming_mode s) = Some p"
  shows "\<exists>sd td lbl.
     fst (simulate_body pkt x s)
       = (count_packet pkt (x < p) s)\<lparr>fixed.time_counter := fixed.time_counter s + 4 / 10,
            success_data := sd, fixed.time_data := td, status_label := lbl\<rparr>"
proof -
  let ?s1 = "count_packet pkt (x < p) s"
  let ?s2 = "?s1\<lparr>fixed.time_counter := fixed.time_counter ?s1 + 4 / 10\<rparr>"
  have tc: "fixed.time_counter ?s1 = fixed.time_counter s" by (simp add: count_packet_def)
  obtain sd td e where ps: "plot_success ?s2 = (?s2\<lparr>success_data := sd, fixed.time_data := td\<rparr>, e)"
    using plot_success_shape by blast
  have unf: "simulate_body pkt x s =
     (case plot_success ?s2 of
        (s3, Some e) \<Rightarrow> (s3, Some e)
      | (s3, None) \<Rightarrow>
          (case status_map (jamming_mode s) of
             None \<Rightarrow> (s3, Some (KeyError (jamming_mode s)))
           | Some lbl \<Rightarrow> (s3\<lparr>status_label := lbl\<rparr>, None)))"
    using assms by (simp add: simulate_body_def Let_def)
  have "fst (simulate_body pkt x s) = ?s2\<lparr>success_data := sd, fixed.time_data := td\<rparr>
      \<or> (\<exists>lbl. fst (simulate_body pkt x s)
             = ?s2\<lparr>success_data := sd, fixed.time_data := td, status_label := lbl\<rparr>)"
  proof (cases e)
    case (Some err)
    then show ?thesis unfolding unf ps by simp
  next
    case None
    show ?thesis
    proof (cases "status_map (jamming_mode s)")
      case None
      with \<open>e = None\<close> show ?thesis unfolding unf ps by simp
    next
      case (Some lbl)
      with \<open>e = None\<close> have "fst (simulate_body pkt x s)
             = ?s2\<lparr>success_data := sd, fixed.time_data := td, status_label := lbl\<rparr>"
        unfolding unf ps by simp
      then show ?thesis by blast
    qed
  qed
  then show ?thesis
  proof
    assume a: "fst (simulate_body pkt x s) = ?s2\<lparr>success_data := sd, fixed.time_data := td\<rparr>"
    have "?s2\<lparr>success_data := sd, fixed.time_data := td\<rparr>
          = ?s1\<lparr>fixed.time_counter := fixed.time_counter s + 4 / 10,
            success_data := sd, fixed.time_data := td, status_label := status_label ?s1\<rparr>"
      unfolding tc by simp
    with a have "fst (simulate_body pkt x s)
          = ?s1\<lparr>fixed.time_counter := fixed.time_counter s + 4 / 10,
            success_data := sd, fixed.time_data := td, status_label := status_label ?s1\<rparr>"
      by (rule trans)
    then show ?thesis by (intro exI)
  next
    assume "\<exists>lbl. fst (simulate_body pkt x s)
             = ?s2\<lparr>success_data := sd, fixed.time_data := td, status_label := lbl\<rparr>"
    then obtain lbl where "fst (simulate_body pkt x s)
             = ?s2\<lparr>success_data := sd, fixed.time_data := td, status_label := lbl\<rparr>" ..
    then have "fst (simulate_body pkt x s)
          = ?s1\<lparr>fixed.time_counter := fixed.time_counter s + 4 / 10,
            success_data := sd, fixed.time_data := td, status_label := lbl\<rparr>"
      unfolding tc .
    then show ?thesis by (intro exI)
  qed
qed

lemma simulate_body_packet:
  assumes "simulation_params (jamming_mode s) = Some p"
  shows "fixed.output_box (fst (simulate_body pkt x s))
           = fixed.output_box s @ [if x < p then Blocked pkt (jamming_mode s) else Sent pkt]"
    and "fixed.blocked (fst (simulate_body pkt x s)) = fixed.blocked s + (if x < p then 1 else 0)"
    and "fixed.sent (fst (simulate_body pkt x s)) = fixed.sent s + (if x < p then 0 else 1)"
proof -
  obtain sd td lbl where eq: "fst (simulate_body pkt x s)
       = (count_packet pkt (x < p) s)\<lparr>fixed.time_counter := fixed.time_counter s + 4 / 10,
            success_data := sd, fixed.time_data := td, status_label := lbl\<rparr>"
    using simulate_body_shape [OF assms] by blast
  show "fixed.output_box (fst (simulate_body pkt x s))
           = fixed.output_box s @ [if x < p then Blocked pkt (jamming_mode s) else Sent pkt]"
    unfolding eq by (simp add: count_packet_def)
  show "fixed.blocked (fst (simulate_body pkt x s)) = fixed.blocked s + (if x < p then 1 else 0)"
    unfolding eq by (simp add: count_packet_def)
  show "fixed.sent (fst (simulate_body pkt x s)) = fixed.sent s + (if x < p then 0 else 1)"
    unfolding eq by (simp add: count_packet_def)
qed

lemma simulate_body_no_zero_division: "snd (simulate_body pkt x s) \<noteq> Some ZeroDivisionError"
proof (cases "simulation_params (jamming_mode s)")
  case None
  then show ?thesis by (simp add: simulate_body_def)
next
  case (Some p)
  let ?s1 = "count_packet pkt (x < p) s"
  let ?s2 = "?s1\<lparr>fixed.time_counter := fixed.time_counter ?s1 + 4 / 10\<rparr>"
  obtain s3 e where ps: "plot_success ?s2 = (s3, e)" by (cases "plot_success ?s2")
  have ne: "e \<noteq> Some ZeroDivisionError"
    using plot_success_no_zero_division [of ?s2] unfolding ps by simp
  have unf: "simulate_body pkt x s =
     (case plot_success ?s2 of
        (s3, Some e) \<Rightarrow> (s3, Some e)
      | (s3, None) \<Rightarrow>
          (case status_map (jamming_mode s) of
             None \<Rightarrow> (s3, Some (KeyError (jamming_mode s)))
           | Some lbl \<Rightarrow> (s3\<lparr>status_label := lbl\<rparr>, None)))"
    using Some by (simp add: simulate_body_def Let_def)
  show ?thesis
  proof (cases e)
    case (Some err)
    with ne show ?thesis unfolding unf ps by simp
  next
    case None
    then show ?thesis unfolding unf ps by (cases "status_map (jamming_mode s)") simp_all
  qed
qed

lemma check_for_jamming_output:
  "\<exists>s'. check_for_jamming r s = Inr s'
     \<and> (jmch.output_box s' = jmch.output_box s
          \<or> (\<exists>c. jmch.output_box s' = jmch.output_box s @ [Hopped c]))"
proof -
  let ?rate = "if jmch.sent s + jmch.blocked s > 0
               then real_of_int (100 * jmch.sent s) / real_of_int (jmch.sent s + jmch.blocked s)
               else 100"
  obtain c where c: "check_for_jamming r s =
       Inr (let rate = ?rate
            in if rate < real_of_int (success_rate_threshold s)
               then s\<lparr>jmch.sent := 0, jmch.blocked := 0, jmch.channel := c,
                       jmch.output_box := jmch.output_box s @ [Hopped c],
                       result_label := JammingDetected rate\<rparr>
               else s\<lparr>jmch.sent := 0, jmch.blocked := 0, result_label := NetworkStable rate\<rparr>)"
    using check_for_jamming_ok by blast
  show ?thesis
  proof (cases "?rate < real_of_int (success_rate_threshold s)")
    case True
    then show ?thesis unfolding c Let_def by simp
  next
    case False
    then show ?thesis unfolding c Let_def by simp
  qed
qed

lemma simulate_packets_body_output:
  assumes "check_interval s \<noteq> 0"
  shows "\<exists>s'. simulate_packets_body d s = Inr s'
     \<and> (jmch.output_box s' = jmch.output_box (record_packet (randint d) (is_blocked s (random_random d)) s)
          \<or> (\<exists>c. jmch.output_box s'
                = jmch.output_box (record_packet (randint d) (is_blocked s (random_random d)) s) @ [Hopped c]))"
proof -
  let ?s1 = "record_packet (randint d) (is_blocked s (random_random d)) s"
  let ?s2 = "?s1\<lparr>jmch.time_counter := jmch.time_counter ?s1 + uniform d\<rparr>"
  obtain s3 where s3: "update_graph ?s2 = Inr s3" by (simp add: update_graph_ok)
  have ob3: "jmch.output_box s3 = jmch.output_box ?s1"
    using s3 unfolding update_graph_ok by (cases "jmch.sent ?s2 + jmch.blocked ?s2 > 0") auto
  have "check_interval ?s1 = check_interval s" by (simp add: record_packet_def)
  then have ci3: "check_interval s3 \<noteq> 0"
    using s3 assms unfolding update_graph_ok
    by (cases "jmch.sent ?s2 + jmch.blocked ?s2 > 0") auto
  have body: "simulate_packets_body d s =
      (if (jmch.sent s3 + jmch.blocked s3) mod check_interval s3 = 0
       then check_for_jamming (pick d) s3 else Inr s3)"
    using s3 ci3 by (simp add: simulate_packets_body_def Let_def py_mod_def)
  show ?thesis
  proof (cases "(jmch.sent s3 + jmch.blocked s3) mod check_interval s3 = 0")
    case True
    with check_for_jamming_output [of "pick d" s3] show ?thesis
      unfolding body ob3 by simp
  next
    case False
    then show ?thesis unfolding body using ob3 by simp
  qed
qed

lemma simulation_params_None: "simulation_params ''None'' = Some 0"
  by (simp add: simulation_params_def)

text \<open>
  C6. The packet decision. In jmch.py the line logged for the packet of an iteration is
  "blocked" exactly when the jammer is active and the draw is strictly below the
  strength, and "sent" otherwise; in particular an inactive jammer blocks nothing. In
  jammer.py, for a mode of the table with block probability \<open>p\<close>, the packet is counted
  and logged as blocked exactly when the draw is strictly below \<open>p\<close>; mode "None" has
  probability 0 and blocks no draw of [0, 1).
\<close>

theorem packet_blocked_iff:
  "(check_interval s \<noteq> 0 \<longrightarrow>
      (\<exists>s'. simulate_packets_body d s = Inr s'
         \<and> ((jmch.output_box s' ! length (jmch.output_box s)
                = PacketBlocked (randint d) (jmch.jammer_strength s))
              = (jammer_active s \<and> random_random d < jmch.jammer_strength s))
         \<and> ((jmch.output_box s' ! length (jmch.output_box s) = PacketSent (randint d))
              = (\<not> (jammer_active s \<and> random_random d < jmch.jammer_strength s)))))
   \<and> (simulation_params (jamming_mode f) = Some p \<longrightarrow>
        ((fixed.output_box (fst (simulate_body pkt x f))
            = fixed.output_box f @ [Blocked pkt (jamming_mode f)]) = (x < p))
        \<and> ((fixed.output_box (fst (simulate_body pkt x f))
            = fixed.output_box f @ [Sent pkt]) = (\<not> x < p))
        \<and> fixed.blocked (fst (simulate_body pkt x f)) = fixed.blocked f + (if x < p then 1 else 0)
        \<and> fixed.sent (fst (simulate_body pkt x f)) = fixed.sent f + (if x < p then 0 else 1))
   \<and> (jamming_mode f = ''None'' \<and> 0 \<le> x \<longrightarrow>
        fixed.output_box (fst (simulate_body pkt x f)) = fixed.output_box f @ [Sent pkt]
        \<and> fixed.blocked (fst (simulate_body pkt x f)) = fixed.blocked f)"
proof (intro conjI impI)
  assume ci: "check_interval s \<noteq> 0"
  let ?s1 = "record_packet (randint d) (is_blocked s (random_random d)) s"
  let ?ln = "if jammer_active s \<and> random_random d < jmch.jammer_strength s
             then PacketBlocked (randint d) (jmch.jammer_strength s) else PacketSent (randint d)"
  have ob1: "jmch.output_box ?s1 = jmch.output_box s @ [?ln]"
    by (simp add: record_packet_def is_blocked_def)
  obtain s' where s': "simulate_packets_body d s = Inr s'"
    "jmch.output_box s' = jmch.output_box ?s1
       \<or> (\<exists>c. jmch.output_box s' = jmch.output_box ?s1 @ [Hopped c])"
    using simulate_packets_body_output [OF ci] by blast
  have nth: "jmch.output_box s' ! length (jmch.output_box s) = ?ln"
    using s'(2) unfolding ob1 by (auto simp: nth_append)
  show "\<exists>s'. simulate_packets_body d s = Inr s'
         \<and> ((jmch.output_box s' ! length (jmch.output_box s)
                = PacketBlocked (randint d) (jmch.jammer_strength s))
              = (jammer_active s \<and> random_random d < jmch.jammer_strength s))
         \<and> ((jmch.output_box s' ! length (jmch.output_box s) = PacketSent (randint d))
              = (\<not> (jammer_active s \<and> random_random d < jmch.jammer_strength s)))"
    using s'(1) nth by (intro exI [of _ s']) auto
next
  assume p: "simulation_params (jamming_mode f) = Some p"
  note sb = simulate_body_packet [OF p, of pkt x]
  show "(fixed.output_box (fst (simulate_body pkt x f))
            = fixed.output_box f @ [Blocked pkt (jamming_mode f)]) = (x < p)"
    unfolding sb(1) by simp
  show "(fixed.output_box (fst (simulate_body pkt x f))
            = fixed.output_box f @ [Sent pkt]) = (\<not> x < p)"
    unfolding sb(1) by simp
  show "fixed.blocked (fst (simulate_body pkt x f)) = fixed.blocked f + (if x < p then 1 else 0)"
    by (rule sb(2))
  show "fixed.sent (fst (simulate_body pkt x f)) = fixed.sent f + (if x < p then 0 else 1)"
    by (rule sb(3))
next
  assume a: "jamming_mode f = ''None'' \<and> 0 \<le> x"
  then have p: "simulation_params (jamming_mode f) = Some 0" by (simp add: simulation_params_None)
  note sb = simulate_body_packet [OF p, of pkt x]
  from a show "fixed.output_box (fst (simulate_body pkt x f)) = fixed.output_box f @ [Sent pkt]"
    unfolding sb(1) by simp
  from a show "fixed.blocked (fst (simulate_body pkt x f)) = fixed.blocked f"
    unfolding sb(2) by simp
qed

theorem packet_blocked_iff_witness:
  "check_interval (toggle_jammer jmch_init) \<noteq> 0
   \<and> simulation_params (jamming_mode (fixed_init\<lparr>jamming_mode := ''Tone''\<rparr>)) = Some (7 / 10)
   \<and> jamming_mode fixed_init = ''None'' \<and> (0::real) \<le> 1 / 4
   \<and> (\<exists>s'. simulate_packets_body \<lparr>randint = 1234, uniform = 3 / 10, random_random = 1 / 4, pick = 0\<rparr>
               (toggle_jammer jmch_init) = Inr s'
         \<and> jmch.output_box s' ! 0 = PacketBlocked 1234 (3 / 10))
   \<and> fixed.output_box (fst (simulate_body 1234 (1 / 4) (fixed_init\<lparr>jamming_mode := ''Tone''\<rparr>)))
        = [Blocked 1234 ''Tone'']
   \<and> fixed.output_box (fst (simulate_body 1234 (1 / 4) fixed_init)) = [Sent 1234]"
proof -
  have a: "check_interval (toggle_jammer jmch_init) \<noteq> 0"
    by (simp add: toggle_jammer_def jmch_init_def)
  have b: "simulation_params (jamming_mode (fixed_init\<lparr>jamming_mode := ''Tone''\<rparr>)) = Some (7 / 10)"
    by (simp add: simulation_params_def)
  have c: "jamming_mode fixed_init = ''None'' \<and> (0::real) \<le> 1 / 4"
    by (simp add: fixed_init_def)
  have j: "jammer_active (toggle_jammer jmch_init)"
    "jmch.jammer_strength (toggle_jammer jmch_init) = 3 / 10"
    "jmch.output_box (toggle_jammer jmch_init) = []"
    by (simp_all add: toggle_jammer_def jmch_init_def)
  have fo: "fixed.output_box fixed_init = []" by (simp add: fixed_init_def)
  from packet_blocked_iff
    [of "toggle_jammer jmch_init"
        "\<lparr>randint = 1234, uniform = 3 / 10, random_random = 1 / 4, pick = 0\<rparr>"
        "fixed_init\<lparr>jamming_mode := ''Tone''\<rparr>" "7 / 10" 1234 "1 / 4"]
  have 1: "\<exists>s'. simulate_packets_body \<lparr>randint = 1234, uniform = 3 / 10, random_random = 1 / 4, pick = 0\<rparr>
               (toggle_jammer jmch_init) = Inr s'
         \<and> jmch.output_box s' ! 0 = PacketBlocked 1234 (3 / 10)"
    and 2: "fixed.output_box (fst (simulate_body 1234 (1 / 4) (fixed_init\<lparr>jamming_mode := ''Tone''\<rparr>)))
        = [Blocked 1234 ''Tone'']"
    using a b j fo by auto
  from packet_blocked_iff [of jmch_init undefined fixed_init 0 1234 "1 / 4"] c fo
  have 3: "fixed.output_box (fst (simulate_body 1234 (1 / 4) fixed_init)) = [Sent 1234]"
    by simp
  from a b c 1 2 3 show ?thesis by blast
qed

section \<open>Facts about jammer+prevention.py\<close>

lemma success_rate_in_percent: "in_percent (success_rate_of snr)"
  by (simp add: success_rate_of_def clip_def in_percent_def min_def max_def)

lemma snr_denominator_positive: "0 < mean (map (\<lambda>x. x ^ 2) jammer) + 1 / 1000000"
proof -
  have "0 \<le> sum_list (map (\<lambda>x. x ^ 2) jammer)"
    by (rule sum_list_nonneg) auto
  then have "0 \<le> mean (map (\<lambda>x. x ^ 2) jammer)"
    by (simp add: mean_def)
  then show ?thesis by simp
qed

lemma store_sample_eq:
  "store_sample ct r s =
     (if length (success_times s) + 1 > 100
      then s\<lparr>success_times := drop 1 (success_times s @ [ct]),
              success_rates := drop 1 (success_rates s @ [r])\<rparr>
      else s\<lparr>success_times := success_times s @ [ct], success_rates := success_rates s @ [r]\<rparr>)"
  by (simp add: store_sample_def Let_def)

lemma store_sample_percent:
  assumes "in_percent r" "list_all in_percent (success_rates s)"
  shows "list_all in_percent (success_rates (store_sample ct r s))"
proof -
  have all: "list_all in_percent (success_rates s @ [r])" using assms by simp
  then have "list_all in_percent (drop 1 (success_rates s @ [r]))"
    unfolding list_all_iff using in_set_dropD by fast
  with all show ?thesis unfolding store_sample_eq by simp
qed

lemma run_simulation_body_eq:
  "run_simulation_body randn now t s =
     (let snr = snr_of (fst (generate_signal randn t s)) (snd (generate_signal randn t s));
          s1 = store_sample (now - start_time s) (success_rate_of snr) s
      in s1\<lparr>console := console s1 @ [SnrLine snr (success_rate_of snr) (adv.channel s1)]\<rparr>)"
  by (simp add: run_simulation_body_def Let_def split_beta)

lemma run_simulation_body_percent:
  assumes "list_all in_percent (success_rates s)"
  shows "list_all in_percent (success_rates (run_simulation_body randn now t s))"
  unfolding run_simulation_body_eq Let_def
  using store_sample_percent [OF success_rate_in_percent assms] by simp

lemma apply_prevention_shape:
  "\<exists>c f js lg. apply_prevention r s
      = Inr (s\<lparr>adv.channel := c, fc := f, adv.jammer_strength := js, console := lg\<rparr>)"
proof -
  have same: "s = s\<lparr>adv.channel := adv.channel s, fc := fc s,
      adv.jammer_strength := adv.jammer_strength s, console := console s\<rparr>" by simp
  consider (hop) "prev_method_var s = ''Channel Hopping''"
    | (spread) "prev_method_var s \<noteq> ''Channel Hopping''" "prev_method_var s = ''Spread Spectrum''"
    | (filt) "prev_method_var s \<noteq> ''Channel Hopping''" "prev_method_var s \<noteq> ''Spread Spectrum''"
        "prev_method_var s = ''Adaptive Filter''"
    | (other) "prev_method_var s \<noteq> ''Channel Hopping''" "prev_method_var s \<noteq> ''Spread Spectrum''"
        "prev_method_var s \<noteq> ''Adaptive Filter''"
    by blast
  then show ?thesis
  proof cases
    case hop
    from apply_prevention_hop_ok [OF hop, of r]
    obtain c where "apply_prevention r s
         = Inr (s\<lparr>adv.channel := c, console := console s @ [ChannelHop c]\<rparr>)" by blast
    then have "apply_prevention r s
         = Inr (s\<lparr>adv.channel := c, fc := fc s, adv.jammer_strength := adv.jammer_strength s,
                  console := console s @ [ChannelHop c]\<rparr>)" by simp
    then show ?thesis by blast
  next
    case spread
    obtain f where "choice r [40, 45, 50, 55, 60 :: int] = Inr f" by (simp add: choice_def)
    with spread have "apply_prevention r s = Inr (s\<lparr>fc := f, console := console s @ [SpreadSpectrum f]\<rparr>)"
      by (simp add: apply_prevention_def Let_def)
    then have "apply_prevention r s
         = Inr (s\<lparr>adv.channel := adv.channel s, fc := f, adv.jammer_strength := adv.jammer_strength s,
                  console := console s @ [SpreadSpectrum f]\<rparr>)" by simp
    then show ?thesis by blast
  next
    case filt
    then have "apply_prevention r s
         = Inr (s\<lparr>adv.channel := adv.channel s, fc := fc s,
                  adv.jammer_strength := adv.jammer_strength s * (7 / 10),
                  console := console s @ [AdaptiveFilter (adv.jammer_strength s * (7 / 10))]\<rparr>)"
      by (simp add: apply_prevention_def Let_def)
    then show ?thesis by blast
  next
    case other
    then have "apply_prevention r s = Inr s" by (simp add: apply_prevention_def Let_def)
    with same show ?thesis by metis
  qed
qed

lemma adv_gui_step_keeps:
  assumes "\<And>now. g \<noteq> StartSimulation now"
  shows "success_rates (adv_gui_step g s) = success_rates s"
    and "success_times (adv_gui_step g s) = success_times s"
    and "\<not> adv.running s \<Longrightarrow> \<not> adv.running (adv_gui_step g s)"
proof -
  obtain c f js lg where ap: "\<And>r. g = ApplyPrevention r \<Longrightarrow> apply_prevention r s
      = Inr (s\<lparr>adv.channel := c r, fc := f r, adv.jammer_strength := js r, console := lg r\<rparr>)"
    using apply_prevention_shape [of _ s] by metis
  show "success_rates (adv_gui_step g s) = success_rates s"
    using assms by (cases g) (auto simp: stop_simulation_def ap)
  show "success_times (adv_gui_step g s) = success_times s"
    using assms by (cases g) (auto simp: stop_simulation_def ap)
  show "\<not> adv.running s \<Longrightarrow> \<not> adv.running (adv_gui_step g s)"
    using assms by (cases g) (auto simp: stop_simulation_def ap)
qed

lemma adv_gui_step_percent:
  assumes "list_all in_percent (success_rates s)"
  shows "list_all in_percent (success_rates (adv_gui_step g s))"
proof (cases "\<exists>now. g = StartSimulation now")
  case True
  then obtain now where "g = StartSimulation now" by blast
  with assms show ?thesis by (cases "adv.running s") (simp_all add: start_simulation_def)
next
  case False
  then have "success_rates (adv_gui_step g s) = success_rates s"
    by (intro adv_gui_step_keeps) blast
  with assms show ?thesis by simp
qed

section \<open>Facts about the worker thread\<close>

lemma run_threads_invariant:
  assumes body: "\<And>d s s'. P s \<Longrightarrow> body d s = Inr s' \<Longrightarrow> P s'"
    and gui: "\<And>g s. P s \<Longrightarrow> P (gui g s)"
  shows "P (state w) \<Longrightarrow> P (state (run_threads is_running body gui as w))"
proof (induction as arbitrary: w)
  case Nil
  then show ?case by simp
next
  case (Cons a as)
  show ?case
  proof (cases a)
    case (WorkerStep d)
    have "P (state (worker_step is_running (body d) w))"
      using Cons.prems body [of "state w" d]
      by (cases "pc w"; cases "body d (state w)") (simp_all add: worker_step_def)
    from Cons.IH [OF this] WorkerStep show ?thesis by simp
  next
    case (GuiStep g)
    have "P (state (w\<lparr>state := gui g (state w)\<rparr>))" using gui [OF Cons.prems] by simp
    from Cons.IH [OF this] GuiStep show ?thesis by simp
  qed
qed

lemma adv_threads_percent:
  assumes "list_all in_percent (success_rates (state w))"
  shows "list_all in_percent (success_rates (state (adv_threads t sched w)))"
  unfolding adv_threads_def
proof (rule run_threads_invariant [where P = "\<lambda>s. list_all in_percent (success_rates s)"])
  fix d :: "(nat \<Rightarrow> real) \<times> real" and s s' :: adv
  assume "list_all in_percent (success_rates s)"
    and "(case d of (randn, now) \<Rightarrow> \<lambda>s. Inr (run_simulation_body randn now t s)) s = Inr s'"
  then show "list_all in_percent (success_rates s')"
    by (cases d) (auto simp: run_simulation_body_percent)
next
  fix g and s :: adv
  assume "list_all in_percent (success_rates s)"
  then show "list_all in_percent (success_rates (adv_gui_step g s))"
    by (rule adv_gui_step_percent)
next
  show "list_all in_percent (success_rates (state w))" by (rule assms)
qed

section \<open>The claims on the success rate\<close>

text \<open>
  C1. The success rate stays within [0, 100]: in jmch.py after any sequence of packet
  recordings, graph updates, evaluations, prevention actions and callbacks from the
  initial state, for the rate of the evaluation and for every plotted rate; in
  jammer.py for every plotted rate after any sequence of iterations and mode changes;
  in jammer+prevention.py for the rate computed from any SNR and for every stored rate
  under any interleaving of the loop with the callbacks.
\<close>

theorem success_rate_within_0_100:
  "(\<exists>s rate. jmch_run evs jmch_init = Inr s \<and> window_success_rate s = Inr rate
       \<and> 0 \<le> rate \<and> rate \<le> 100 \<and> list_all in_percent (success_rate_data s))
   \<and> (\<exists>s rate. simulate_packets ds jmch_init = Inr s \<and> window_success_rate s = Inr rate
       \<and> 0 \<le> rate \<and> rate \<le> 100 \<and> list_all in_percent (success_rate_data s))
   \<and> (case success_data (fixed_run fevs fixed_init) of
         None \<Rightarrow> True | Some sd \<Rightarrow> list_all in_percent sd)
   \<and> 0 \<le> success_rate_of snr \<and> success_rate_of snr \<le> 100
   \<and> list_all in_percent
        (success_rates (state (adv_threads t sched
           \<lparr>pc = LoopTest, state = start_simulation now adv_init,
            ticks_begun = 0, ticks_done = 0\<rparr>)))"
proof (intro conjI)
  obtain s where s: "jmch_run evs jmch_init = Inr s" "jmch_inv s"
    using jmch_run_inv [OF jmch_init_inv] by blast
  obtain rate where "window_success_rate s = Inr rate" "in_percent rate"
    using window_rate_in_percent [OF s(2)] by blast
  with s show "\<exists>s rate. jmch_run evs jmch_init = Inr s \<and> window_success_rate s = Inr rate
       \<and> 0 \<le> rate \<and> rate \<le> 100 \<and> list_all in_percent (success_rate_data s)"
    by (auto simp: jmch_inv_def in_percent_def)
next
  obtain s where s: "simulate_packets ds jmch_init = Inr s" "jmch_inv s"
    using simulate_packets_inv [OF jmch_init_inv] by blast
  obtain rate where "window_success_rate s = Inr rate" "in_percent rate"
    using window_rate_in_percent [OF s(2)] by blast
  with s show "\<exists>s rate. simulate_packets ds jmch_init = Inr s \<and> window_success_rate s = Inr rate
       \<and> 0 \<le> rate \<and> rate \<le> 100 \<and> list_all in_percent (success_rate_data s)"
    by (auto simp: jmch_inv_def in_percent_def)
next
  show "case success_data (fixed_run fevs fixed_init) of
         None \<Rightarrow> True | Some sd \<Rightarrow> list_all in_percent sd"
    using fixed_run_inv [OF fixed_init_inv, of fevs] by (simp add: fixed_inv_def)
next
  show "0 \<le> success_rate_of snr" "success_rate_of snr \<le> 100"
    using success_rate_in_percent [of snr] by (simp_all add: in_percent_def)
next
  have "list_all in_percent (success_rates (start_simulation now adv_init))"
    by (simp add: start_simulation_def adv_init_def)
  then show "list_all in_percent
        (success_rates (state (adv_threads t sched
           \<lparr>pc = LoopTest, state = start_simulation now adv_init,
            ticks_begun = 0, ticks_done = 0\<rparr>)))"
    by (intro adv_threads_percent) simp
qed

text \<open>
  C7. With no packet in the window the evaluation takes the rate to be 100; every
  division by the packet total is behind the test \<open>total > 0\<close>, so neither the
  evaluation, the graph update, an iteration, nor any run from the initial state raises
  ZeroDivisionError (nor anything else), and the SNR denominator is positive.
\<close>

theorem no_division_by_zero:
  "(jmch.sent s + jmch.blocked s = 0 \<longrightarrow> window_success_rate s = Inr 100)
   \<and> (\<exists>rate. window_success_rate s = Inr rate)
   \<and> (\<exists>s'. update_graph s = Inr s')
   \<and> (\<exists>s'. check_for_jamming r s = Inr s')
   \<and> (\<exists>s'. jmch_run evs jmch_init = Inr s')
   \<and> (\<exists>s'. simulate_packets ds jmch_init = Inr s')
   \<and> snd (plot_success f) \<noteq> Some ZeroDivisionError
   \<and> snd (simulate_body pkt x f) \<noteq> Some ZeroDivisionError
   \<and> 0 < mean (map (\<lambda>x. x ^ 2) jammer) + 1 / 1000000"
proof (intro conjI impI)
  assume "jmch.sent s + jmch.blocked s = 0"
  then show "window_success_rate s = Inr 100" by (simp add: window_success_rate_ok)
next
  show "\<exists>rate. window_success_rate s = Inr rate" by (simp add: window_success_rate_ok)
next
  show "\<exists>s'. update_graph s = Inr s'" by (simp add: update_graph_ok)
next
  show "\<exists>s'. check_for_jamming r s = Inr s'" using check_for_jamming_output [of r s] by blast
next
  show "\<exists>s'. jmch_run evs jmch_init = Inr s'" using jmch_run_inv [OF jmch_init_inv] by blast
next
  show "\<exists>s'. simulate_packets ds jmch_init = Inr s'"
    using simulate_packets_inv [OF jmch_init_inv] by blast
next
  show "snd (plot_success f) \<noteq> Some ZeroDivisionError" by (rule plot_success_no_zero_division)
next
  show "snd (simulate_body pkt x f) \<noteq> Some ZeroDivisionError"
    by (rule simulate_body_no_zero_division)
next
  show "0 < mean (map (\<lambda>x. x ^ 2) jammer) + 1 / 1000000" by (rule snr_denominator_positive)
qed

theorem no_division_by_zero_witness:
  "jmch.sent jmch_init + jmch.blocked jmch_init = 0
   \<and> window_success_rate jmch_init = Inr 100
   \<and> (\<exists>s'. check_for_jamming 0 jmch_init = Inr s')"
proof -
  have z: "jmch.sent jmch_init + jmch.blocked jmch_init = 0" by (simp add: jmch_init_def)
  from no_division_by_zero [of jmch_init 0 "[]" "[]" fixed_init 0 0 "[]"] z
  show ?thesis by blast
qed

section \<open>The adaptive filter\<close>







section \<open>The success-rate histories\<close>

lemma push_window:
  fixes h :: "'a list"
  assumes "length h \<le> 100"
  shows "(if length h + 1 > 100 then drop 1 (h @ [x]) else h @ [x])
         = drop (length (h @ [x]) - 100) (h @ [x])"
proof (cases "length h = 100")
  case True
  then show ?thesis by simp
next
  case False
  with assms have "length h < 100" by simp
  then show ?thesis by simp
qed

lemma window_step:
  fixes xs :: "'a list"
  shows "drop (length (drop (length xs - 100) xs @ [x]) - 100) (drop (length xs - 100) xs @ [x])
         = drop (length (xs @ [x]) - 100) (xs @ [x])"
proof (cases "length xs \<le> 100")
  case True
  then show ?thesis by simp
next
  case False
  then have n: "Suc (length xs - 100) = length xs - 99" by arith
  from False have "length (drop (length xs - 100) xs) = 100" by simp
  then have "drop (length (drop (length xs - 100) xs @ [x]) - 100) (drop (length xs - 100) xs @ [x])
      = drop 1 (drop (length xs - 100) xs @ [x])" by simp
  also have "\<dots> = drop (Suc (length xs - 100)) (xs @ [x])" using False by simp
  also have "\<dots> = drop (length (xs @ [x]) - 100) (xs @ [x])" unfolding n by simp
  finally show ?thesis .
qed


lemma window_append:
  fixes xs :: "'a list"
  shows "drop (length (drop (length xs - 100) xs @ ys) - 100) (drop (length xs - 100) xs @ ys)
         = drop (length (xs @ ys) - 100) (xs @ ys)"
proof (cases "length xs \<le> 100")
  case True
  then show ?thesis by simp
next
  case False
  define k where "k = length xs - 100"
  have len: "length xs = k + 100" using False by (simp add: k_def)
  have l1: "length (drop k xs @ ys) - 100 = length ys" using len by simp
  have l2: "length (xs @ ys) - 100 = length ys + k" using len by simp
  have l3: "length ys + k - length xs = length ys - 100" using len by simp
  have l4: "length ys - length (drop k xs) = length ys - 100" using len by simp
  show ?thesis
    unfolding k_def [symmetric] l1 l2 drop_append drop_drop l3 l4 by (simp add: add.commute)
qed

lemma check_for_jamming_keeps:
  "\<exists>s'. check_for_jamming r s = Inr s'
     \<and> success_rate_data s' = success_rate_data s \<and> jmch.running s' = jmch.running s"
proof -
  let ?rate = "if jmch.sent s + jmch.blocked s > 0
               then real_of_int (100 * jmch.sent s) / real_of_int (jmch.sent s + jmch.blocked s)
               else 100"
  obtain c where c: "check_for_jamming r s =
       Inr (let rate = ?rate
            in if rate < real_of_int (success_rate_threshold s)
               then s\<lparr>jmch.sent := 0, jmch.blocked := 0, jmch.channel := c,
                       jmch.output_box := jmch.output_box s @ [Hopped c],
                       result_label := JammingDetected rate\<rparr>
               else s\<lparr>jmch.sent := 0, jmch.blocked := 0, result_label := NetworkStable rate\<rparr>)"
    using check_for_jamming_ok by blast
  show ?thesis
  proof (cases "?rate < real_of_int (success_rate_threshold s)")
    case True
    then show ?thesis unfolding c Let_def by simp
  next
    case False
    then show ?thesis unfolding c Let_def by simp
  qed
qed

lemma simulate_packets_body_growth:
  assumes "jmch_inv s"
  shows "\<exists>s'. simulate_packets_body d s = Inr s' \<and> jmch_inv s'
     \<and> jmch.running s' = jmch.running s
     \<and> length (success_rate_data s') = Suc (length (success_rate_data s))"
proof -
  let ?s1 = "record_packet (randint d) (is_blocked s (random_random d)) s"
  let ?s2 = "?s1\<lparr>jmch.time_counter := jmch.time_counter ?s1 + uniform d\<rparr>"
  obtain s' where s': "simulate_packets_body d s = Inr s'" "jmch_inv s'"
    using simulate_packets_body_inv [OF assms] by blast
  have pos: "jmch.sent ?s2 + jmch.blocked ?s2 > 0"
    using assms by (simp add: record_packet_def jmch_inv_def)
  have k2: "success_rate_data ?s2 = success_rate_data s" "jmch.running ?s2 = jmch.running s"
    by (simp_all add: record_packet_def)
  obtain s3 where s3: "update_graph ?s2 = Inr s3"
    "length (success_rate_data s3) = Suc (length (success_rate_data s))"
    "jmch.running s3 = jmch.running s" "check_interval s3 = check_interval ?s2"
    unfolding update_graph_ok using pos k2 by simp
  have ci: "check_interval s3 = 10"
    using assms s3(4) by (simp add: record_packet_def jmch_inv_def)
  have body: "simulate_packets_body d s =
      (if (jmch.sent s3 + jmch.blocked s3) mod check_interval s3 = 0
       then check_for_jamming (pick d) s3 else Inr s3)"
    using s3(1) ci by (simp add: simulate_packets_body_def Let_def py_mod_def)
  have "jmch.running s' = jmch.running s
     \<and> length (success_rate_data s') = Suc (length (success_rate_data s))"
  proof (cases "(jmch.sent s3 + jmch.blocked s3) mod check_interval s3 = 0")
    case True
    with check_for_jamming_keeps [of "pick d" s3] s'(1) s3(2,3) show ?thesis
      unfolding body by auto
  next
    case False
    with s'(1) s3(2,3) show ?thesis unfolding body by auto
  qed
  with s' show ?thesis by blast
qed

lemma simulate_packets_growth:
  "jmch_inv s \<Longrightarrow> jmch.running s \<Longrightarrow>
   \<exists>s'. simulate_packets ds s = Inr s'
     \<and> length (success_rate_data s') = length (success_rate_data s) + length ds"
proof (induction ds arbitrary: s)
  case Nil
  then show ?case by simp
next
  case (Cons d ds)
  obtain s1 where s1: "simulate_packets_body d s = Inr s1" "jmch_inv s1"
    "jmch.running s1 = jmch.running s"
    "length (success_rate_data s1) = Suc (length (success_rate_data s))"
    using simulate_packets_body_growth [OF Cons.prems(1), of d] by blast
  from Cons.IH [OF s1(2)] s1(3) Cons.prems(2)
  obtain s' where "simulate_packets ds s1 = Inr s'"
    "length (success_rate_data s') = length (success_rate_data s1) + length ds" by auto
  with s1(1,4) Cons.prems(2) show ?case by simp
qed


lemma run_simulation_body_fields:
  "run_simulation_body randn now t s =
     s\<lparr>success_times :=
          (if length (success_times s) + 1 > 100
           then drop 1 (success_times s @ [now - start_time s])
           else success_times s @ [now - start_time s]),
       success_rates :=
          (if length (success_times s) + 1 > 100
           then drop 1 (success_rates s @
                  [success_rate_of (snr_of (fst (generate_signal randn t s))
                                           (snd (generate_signal randn t s)))])
           else success_rates s @
                  [success_rate_of (snr_of (fst (generate_signal randn t s))
                                           (snd (generate_signal randn t s)))]),
       console := console s @
          [SnrLine (snr_of (fst (generate_signal randn t s)) (snd (generate_signal randn t s)))
             (success_rate_of (snr_of (fst (generate_signal randn t s))
                                      (snd (generate_signal randn t s))))
             (adv.channel s)]\<rparr>"
proof (cases "length (success_times s) + 1 > 100")
  case True
  then show ?thesis unfolding run_simulation_body_eq store_sample_eq Let_def by simp
next
  case False
  then show ?thesis unfolding run_simulation_body_eq store_sample_eq Let_def by simp
qed

lemma run_simulation_body_keeps:
  "generate_signal randn' t' (run_simulation_body randn now t s) = generate_signal randn' t' s"
  "start_time (run_simulation_body randn now t s) = start_time s"
  "adv.running (run_simulation_body randn now t s) = adv.running s"
  unfolding run_simulation_body_fields by (simp_all add: generate_signal_def)

lemma run_simulation_body_window:
  assumes "length (success_times s) = length (success_rates s)"
    and "length (success_rates s) \<le> 100"
  shows "success_rates (run_simulation_body randn now t s)
         = drop (length (success_rates s @
                  [success_rate_of (snr_of (fst (generate_signal randn t s))
                                           (snd (generate_signal randn t s)))]) - 100)
             (success_rates s @
                  [success_rate_of (snr_of (fst (generate_signal randn t s))
                                           (snd (generate_signal randn t s)))])"
    and "success_times (run_simulation_body randn now t s)
         = drop (length (success_times s @ [now - start_time s]) - 100)
             (success_times s @ [now - start_time s])"
proof -
  have lt: "length (success_times s) \<le> 100" using assms by simp
  show "success_rates (run_simulation_body randn now t s)
         = drop (length (success_rates s @
                  [success_rate_of (snr_of (fst (generate_signal randn t s))
                                           (snd (generate_signal randn t s)))]) - 100)
             (success_rates s @
                  [success_rate_of (snr_of (fst (generate_signal randn t s))
                                           (snd (generate_signal randn t s)))])"
    unfolding run_simulation_body_fields
    using push_window [OF assms(2)] assms(1) by simp
  show "success_times (run_simulation_body randn now t s)
         = drop (length (success_times s @ [now - start_time s]) - 100)
             (success_times s @ [now - start_time s])"
    unfolding run_simulation_body_fields
    using push_window [OF lt] by simp
qed

lemma run_simulation_loop_window:
  "adv.running s \<Longrightarrow> length (success_times s) = length (success_rates s) \<Longrightarrow>
   length (success_rates s) \<le> 100 \<Longrightarrow>
   success_rates (run_simulation_loop ds t s)
     = drop (length (success_rates s @ map (\<lambda>(randn, now).
               success_rate_of (snr_of (fst (generate_signal randn t s))
                                       (snd (generate_signal randn t s)))) ds) - 100)
         (success_rates s @ map (\<lambda>(randn, now).
               success_rate_of (snr_of (fst (generate_signal randn t s))
                                       (snd (generate_signal randn t s)))) ds)
   \<and> success_times (run_simulation_loop ds t s)
     = drop (length (success_times s @ map (\<lambda>(randn, now). now - start_time s) ds) - 100)
         (success_times s @ map (\<lambda>(randn, now). now - start_time s) ds)"
proof (induction ds arbitrary: s)
  case Nil
  then show ?case by simp
next
  case (Cons d ds)
  obtain randn now where d: "d = (randn, now)" by (cases d)
  let ?s1 = "run_simulation_body randn now t s"
  let ?r = "success_rate_of (snr_of (fst (generate_signal randn t s))
                                    (snd (generate_signal randn t s)))"
  let ?f = "\<lambda>(randn, now). success_rate_of (snr_of (fst (generate_signal randn t s))
                                       (snd (generate_signal randn t s)))"
  let ?g = "\<lambda>(randn, now). now - start_time s"
  note w = run_simulation_body_window [OF Cons.prems(2,3), of randn now t]
  have r1: "adv.running ?s1" using Cons.prems(1) by (simp add: run_simulation_body_keeps)
  have l1: "length (success_times ?s1) = length (success_rates ?s1)"
    unfolding w using Cons.prems(2) by simp
  have l2: "length (success_rates ?s1) \<le> 100" unfolding w by simp
  note ih = Cons.IH [OF r1 l1 l2, unfolded run_simulation_body_keeps]
  have loop: "run_simulation_loop (d # ds) t s = run_simulation_loop ds t ?s1"
    using Cons.prems(1) d by simp
  have a: "success_rates (run_simulation_loop (d # ds) t s)
      = drop (length (success_rates s @ map ?f (d # ds)) - 100) (success_rates s @ map ?f (d # ds))"
    unfolding loop ih [THEN conjunct1] w(1)
    using window_append [of "success_rates s @ [?r]" "map ?f ds"] d by simp
  have b: "success_times (run_simulation_loop (d # ds) t s)
      = drop (length (success_times s @ map ?g (d # ds)) - 100) (success_times s @ map ?g (d # ds))"
    unfolding loop ih [THEN conjunct2] w(2)
    using window_append [of "success_times s @ [now - start_time s]" "map ?g ds"] d by simp
  from a b show ?case by blast
qed


lemma simulate_packets_body_appends:
  assumes "jmch_inv s"
  shows "\<exists>s' x. simulate_packets_body d s = Inr s' \<and> jmch_inv s'
     \<and> jmch.running s' = jmch.running s
     \<and> success_rate_data s' = success_rate_data s @ [x]"
proof -
  let ?s1 = "record_packet (randint d) (is_blocked s (random_random d)) s"
  let ?s2 = "?s1\<lparr>jmch.time_counter := jmch.time_counter ?s1 + uniform d\<rparr>"
  let ?x = "real_of_int (100 * jmch.sent ?s2) / real_of_int (jmch.sent ?s2 + jmch.blocked ?s2)"
  obtain s' where s': "simulate_packets_body d s = Inr s'" "jmch_inv s'"
    using simulate_packets_body_inv [OF assms] by blast
  have pos: "jmch.sent ?s2 + jmch.blocked ?s2 > 0"
    using assms by (simp add: record_packet_def jmch_inv_def)
  have k2: "success_rate_data ?s2 = success_rate_data s" "jmch.running ?s2 = jmch.running s"
    by (simp_all add: record_packet_def)
  obtain s3 where s3: "update_graph ?s2 = Inr s3"
    "success_rate_data s3 = success_rate_data s @ [?x]"
    "jmch.running s3 = jmch.running s" "check_interval s3 = check_interval ?s2"
    unfolding update_graph_ok using pos k2 by simp
  have ci: "check_interval s3 = 10"
    using assms s3(4) by (simp add: record_packet_def jmch_inv_def)
  have body: "simulate_packets_body d s =
      (if (jmch.sent s3 + jmch.blocked s3) mod check_interval s3 = 0
       then check_for_jamming (pick d) s3 else Inr s3)"
    using s3(1) ci by (simp add: simulate_packets_body_def Let_def py_mod_def)
  have "jmch.running s' = jmch.running s \<and> success_rate_data s' = success_rate_data s @ [?x]"
  proof (cases "(jmch.sent s3 + jmch.blocked s3) mod check_interval s3 = 0")
    case True
    with check_for_jamming_keeps [of "pick d" s3] s'(1) s3(2,3) show ?thesis
      unfolding body by auto
  next
    case False
    with s'(1) s3(2,3) show ?thesis unfolding body by auto
  qed
  with s' show ?thesis by blast
qed

lemma simulate_packets_appends:
  "jmch_inv s \<Longrightarrow> jmch.running s \<Longrightarrow>
   \<exists>s' new. simulate_packets ds s = Inr s'
     \<and> success_rate_data s' = success_rate_data s @ new \<and> length new = length ds"
proof (induction ds arbitrary: s)
  case Nil
  then show ?case by simp
next
  case (Cons d ds)
  obtain s1 x where s1: "simulate_packets_body d s = Inr s1" "jmch_inv s1"
    "jmch.running s1 = jmch.running s"
    "success_rate_data s1 = success_rate_data s @ [x]"
    using simulate_packets_body_appends [OF Cons.prems(1), of d] by blast
  from Cons.IH [OF s1(2)] s1(3) Cons.prems(2)
  obtain s' new where n: "simulate_packets ds s1 = Inr s'"
    "success_rate_data s' = success_rate_data s1 @ new" "length new = length ds" by auto
  have "simulate_packets (d # ds) s = Inr s'" using s1(1) n(1) Cons.prems(2) by simp
  moreover have "success_rate_data s' = success_rate_data s @ (x # new)"
    unfolding n(2) s1(4) by simp
  moreover have "length (x # new) = length (d # ds)" using n(3) by simp
  ultimately show ?case by blast
qed

text \<open>
  C8 as stated fails in jmch.py: \<^verbatim>\<open>update_graph\<close> appends to \<open>success_rate_data\<close> and
  nothing ever removes an entry. After 101 iterations from the initial state, with the
  jammer off, the history holds 101 rates.
\<close>

theorem jmch_history_exceeds_capacity:
  "(case simulate_packets
          (replicate 101 \<lparr>randint = 1000, uniform = 1 / 5, random_random = 0, pick = 0\<rparr>)
          jmch_init of
      Inl e \<Rightarrow> False
    | Inr s' \<Rightarrow> length (success_rate_data s') = 101 \<and> \<not> length (success_rate_data s') \<le> 100)"
proof -
  have r: "jmch.running jmch_init" and z: "success_rate_data jmch_init = []"
    by (simp_all add: jmch_init_def)
  from simulate_packets_growth [OF jmch_init_inv r,
      of "replicate 101 \<lparr>randint = 1000, uniform = 1 / 5, random_random = 0, pick = 0\<rparr>"]
  obtain s' where "simulate_packets
          (replicate 101 \<lparr>randint = 1000, uniform = 1 / 5, random_random = 0, pick = 0\<rparr>)
          jmch_init = Inr s'"
    "length (success_rate_data s') = 101"
    unfolding z by auto
  then show ?thesis by simp
qed

text \<open>
  C8, amended. In jammer+prevention.py the histories are bounded FIFO sequences: a
  running loop started with two histories of the same length, at most 100 (as
  \<^verbatim>\<open>start_simulation\<close> leaves them: both empty), ends with exactly the last 100 of the
  old samples followed by the new ones, in order, for the rates and for the times, so
  neither history exceeds 100 entries. In jmch.py the history is append-only: a run of
  the loop keeps every old rate, in place, and appends one new rate per iteration;
  nothing is ever removed.
\<close>

theorem history_bounded_fifo:
  "(adv.running s \<and> length (success_times s) = length (success_rates s)
      \<and> length (success_rates s) \<le> 100 \<longrightarrow>
      success_rates (run_simulation_loop ds t s)
        = drop (length (success_rates s @ map (\<lambda>(randn, now).
               success_rate_of (snr_of (fst (generate_signal randn t s))
                                       (snd (generate_signal randn t s)))) ds) - 100)
            (success_rates s @ map (\<lambda>(randn, now).
               success_rate_of (snr_of (fst (generate_signal randn t s))
                                       (snd (generate_signal randn t s)))) ds)
      \<and> success_times (run_simulation_loop ds t s)
        = drop (length (success_times s @ map (\<lambda>(randn, now). now - start_time s) ds) - 100)
            (success_times s @ map (\<lambda>(randn, now). now - start_time s) ds)
      \<and> length (success_rates (run_simulation_loop ds t s)) \<le> 100
      \<and> length (success_times (run_simulation_loop ds t s)) \<le> 100)
   \<and> (jmch_inv j \<and> jmch.running j \<longrightarrow>
        (\<exists>j' new. simulate_packets pk j = Inr j'
           \<and> success_rate_data j' = success_rate_data j @ new
           \<and> length new = length pk
           \<and> length (success_rate_data j') = length (success_rate_data j) + length pk))"
proof (intro conjI impI)
  assume a: "adv.running s \<and> length (success_times s) = length (success_rates s)
      \<and> length (success_rates s) \<le> 100"
  then have a1: "adv.running s" and a2: "length (success_times s) = length (success_rates s)"
    and a3: "length (success_rates s) \<le> 100" by simp_all
  note w = run_simulation_loop_window [OF a1 a2 a3, of ds t]
  show "success_rates (run_simulation_loop ds t s)
        = drop (length (success_rates s @ map (\<lambda>(randn, now).
               success_rate_of (snr_of (fst (generate_signal randn t s))
                                       (snd (generate_signal randn t s)))) ds) - 100)
            (success_rates s @ map (\<lambda>(randn, now).
               success_rate_of (snr_of (fst (generate_signal randn t s))
                                       (snd (generate_signal randn t s)))) ds)"
    by (rule w [THEN conjunct1])
  show "success_times (run_simulation_loop ds t s)
        = drop (length (success_times s @ map (\<lambda>(randn, now). now - start_time s) ds) - 100)
            (success_times s @ map (\<lambda>(randn, now). now - start_time s) ds)"
    by (rule w [THEN conjunct2])
  show "length (success_rates (run_simulation_loop ds t s)) \<le> 100"
    unfolding w [THEN conjunct1] by simp
  show "length (success_times (run_simulation_loop ds t s)) \<le> 100"
    unfolding w [THEN conjunct2] by simp
next
  assume "jmch_inv j \<and> jmch.running j"
  then obtain j' new where "simulate_packets pk j = Inr j'"
    "success_rate_data j' = success_rate_data j @ new" "length new = length pk"
    using simulate_packets_appends [of j pk] by blast
  then show "\<exists>j' new. simulate_packets pk j = Inr j'
           \<and> success_rate_data j' = success_rate_data j @ new
           \<and> length new = length pk
           \<and> length (success_rate_data j') = length (success_rate_data j) + length pk"
    by auto
qed

text \<open>
  The witness pushes 105 samples, taken at the times 1, 2, ..., 105, onto the empty
  histories of a freshly started simulation, on the time grid of the program: the five
  oldest are evicted and the times 6, ..., 105 remain, in order. In jmch.py three
  iterations from the initial state leave three rates.
\<close>

theorem history_bounded_fifo_witness:
  "adv.running (start_simulation 0 adv_init)
   \<and> length (success_times (start_simulation 0 adv_init))
       = length (success_rates (start_simulation 0 adv_init))
   \<and> length (success_rates (start_simulation 0 adv_init)) \<le> 100
   \<and> jmch_inv jmch_init \<and> jmch.running jmch_init
   \<and> success_times (run_simulation_loop (map (\<lambda>n. (\<lambda>i. 0, real n)) [1..<106])
         (linspace 0 1 1000) (start_simulation 0 adv_init))
       = map real [6..<106]
   \<and> length (success_rates (run_simulation_loop (map (\<lambda>n. (\<lambda>i. 0, real n)) [1..<106])
         (linspace 0 1 1000) (start_simulation 0 adv_init))) = 100
   \<and> (\<exists>j' new. simulate_packets
           (replicate 3 \<lparr>randint = 1000, uniform = 1 / 5, random_random = 0, pick = 0\<rparr>)
           jmch_init = Inr j'
         \<and> success_rate_data j' = new \<and> length new = 3)"
proof -
  let ?s = "start_simulation 0 adv_init"
  let ?ds = "map (\<lambda>n. (\<lambda>i. 0 :: real, real n)) [1..<106]"
  let ?t = "linspace 0 1 1000"
  have s: "adv.running ?s" "success_times ?s = []" "success_rates ?s = []" "start_time ?s = 0"
    by (simp_all add: start_simulation_def adv_init_def)
  have j: "jmch_inv jmch_init" "jmch.running jmch_init" "success_rate_data jmch_init = []"
    by (simp_all add: jmch_init_inv) (simp_all add: jmch_init_def)
  have pre: "adv.running ?s \<and> length (success_times ?s) = length (success_rates ?s)
      \<and> length (success_rates ?s) \<le> 100"
    using s by simp
  note th = history_bounded_fifo [of ?s ?ds ?t jmch_init
      "replicate 3 \<lparr>randint = 1000, uniform = 1 / 5, random_random = 0, pick = 0\<rparr>"]
  note ap = th [THEN conjunct1, THEN mp, OF pre]
  note tm = ap [THEN conjunct2, THEN conjunct1]
  note rt = ap [THEN conjunct1]
  have m: "map (\<lambda>(randn, now). now - (0::real)) ?ds = map real [1..<106]"
    by (simp add: comp_def)
  have dr: "drop 5 (map real [1..<106]) = map real [6..<106]"
    unfolding drop_map drop_upt by simp
  have t1: "success_times (run_simulation_loop ?ds ?t ?s) = map real [6..<106]"
    unfolding tm s m using dr by simp
  have t2: "length (success_rates (run_simulation_loop ?ds ?t ?s)) = 100"
    unfolding rt s(3) by simp
  note jp = th [THEN conjunct2, THEN mp, OF conjI [OF j(1) j(2)]]
  then obtain j' new where jn: "simulate_packets
           (replicate 3 \<lparr>randint = 1000, uniform = 1 / 5, random_random = 0, pick = 0\<rparr>)
           jmch_init = Inr j'"
      "success_rate_data j' = success_rate_data jmch_init @ new"
      "length new = length (replicate 3 \<lparr>randint = 1000 :: int, uniform = 1 / 5 :: real,
                               random_random = 0 :: real, pick = 0 :: nat\<rparr>)"
    by blast
  have "simulate_packets
           (replicate 3 \<lparr>randint = 1000, uniform = 1 / 5, random_random = 0, pick = 0\<rparr>)
           jmch_init = Inr j' \<and> success_rate_data j' = new \<and> length new = 3"
    using jn unfolding j(3) by simp
  then have t3: "\<exists>j' new. simulate_packets
           (replicate 3 \<lparr>randint = 1000, uniform = 1 / 5, random_random = 0, pick = 0\<rparr>)
           jmch_init = Inr j'
         \<and> success_rate_data j' = new \<and> length new = 3"
    by (intro exI)
  from s(1) pre j(1,2) t1 t2 t3 show ?thesis by simp
qed

section \<open>A jammer of strength zero\<close>

lemma sin_ge_half:
  assumes "pi / 6 \<le> x" "x \<le> 5 * pi / 6"
  shows "1 / 2 \<le> sin x"
proof (cases "x \<le> pi / 2")
  case True
  have "sin (pi / 6) \<le> sin x"
    using assms(1) True by (intro sin_monotone_2pi_le) (simp_all add: field_simps)
  then show ?thesis by (simp add: sin_30)
next
  case False
  have "sin (pi / 6) \<le> sin (pi - x)"
    using assms(2) False by (intro sin_monotone_2pi_le) (simp_all add: field_simps)
  then show ?thesis by (simp add: sin_30)
qed

lemma member_le_sum_list_nonneg:
  fixes xs :: "real list"
  shows "\<forall>x\<in>set xs. 0 \<le> x \<Longrightarrow> y \<in> set xs \<Longrightarrow> y \<le> sum_list xs"
proof (induction xs)
  case Nil
  then show ?case by simp
next
  case (Cons a xs)
  have nn: "0 \<le> sum_list xs" using Cons.prems(1) by (intro sum_list_nonneg) simp
  show ?case
  proof (cases "y = a")
    case True
    with nn show ?thesis by simp
  next
    case False
    with Cons.prems have "y \<in> set xs" by simp
    with Cons.IH Cons.prems(1) have "y \<le> sum_list xs" by simp
    moreover have "0 \<le> a" using Cons.prems(1) by simp
    ultimately show ?thesis by simp
  qed
qed

lemma sum_list_squares_zero:
  fixes xs :: "real list"
  shows "\<forall>x\<in>set xs. x = 0 \<Longrightarrow> sum_list (map (\<lambda>x. x ^ 2) xs) = 0"
  by (induction xs) simp_all

lemma zero_strength_zero_jammer:
  assumes "adv.jammer_strength s = 0"
  shows "\<forall>x\<in>set (snd (generate_signal randn t s)). x = 0"
  using assms by (auto simp: generate_signal_def Let_def)

lemma linspace_nth:
  assumes "i < num"
  shows "linspace start stop num ! i = start + real i * ((stop - start) / real (num - 1))"
  using assms by (simp add: linspace_def)

lemma linspace_length: "length (linspace start stop num) = num"
  by (simp add: linspace_def)

lemma clean_signal_power:
  assumes "40 \<le> fc s" "fc s \<le> 60"
  shows "1 / 4000 \<le> mean (map (\<lambda>x. x ^ 2) (fst (generate_signal randn (linspace 0 1 1000) s)))"
proof -
  let ?t = "linspace 0 1 1000"
  let ?sig = "fst (generate_signal randn ?t s)"
  let ?sq = "map (\<lambda>x. x ^ 2) ?sig"
  have sig: "?sig = map (\<lambda>x. sin (2 * pi * real_of_int (fc s) * x)) ?t"
    by (simp add: generate_signal_def Let_def)
  have len: "length ?sq = 1000" unfolding sig by (simp add: linspace_length)
  have t5: "?t ! 5 = 5 / 999" by (simp add: linspace_nth)
  let ?th = "2 * pi * real_of_int (fc s) * (5 / 999)"
  have "?sq ! 5 = (sin (2 * pi * real_of_int (fc s) * (?t ! 5))) ^ 2"
    unfolding sig by (simp add: linspace_length)
  then have sq5: "?sq ! 5 = (sin ?th) ^ 2" unfolding t5 .
  have lo: "pi / 6 \<le> ?th"
  proof -
    have "(40::real) \<le> real_of_int (fc s)" using assms(1) by simp
    then have "pi / 6 \<le> 2 * pi * 40 * (5 / 999)" "2 * pi * 40 * (5 / 999) \<le> ?th"
      by (simp_all add: field_simps)
    then show ?thesis by (rule order_trans)
  qed
  have hi: "?th \<le> 5 * pi / 6"
  proof -
    have "real_of_int (fc s) \<le> 60" using assms(2) by simp
    then have "?th \<le> 2 * pi * 60 * (5 / 999)" "2 * pi * 60 * (5 / 999) \<le> 5 * pi / 6"
      by (simp_all add: field_simps)
    then show ?thesis by (rule order_trans)
  qed
  have half: "1 / 2 \<le> sin ?th" using lo hi by (rule sin_ge_half)
  have "(1 / 2) ^ 2 \<le> (sin ?th) ^ 2"
    using half by (intro power_mono) simp_all
  then have q: "1 / 4 \<le> ?sq ! 5" unfolding sq5 by (simp add: power2_eq_square)
  have mem: "?sq ! 5 \<in> set ?sq" using len by (intro nth_mem) simp
  have nn: "\<forall>x\<in>set ?sq. 0 \<le> x" by auto
  have "?sq ! 5 \<le> sum_list ?sq" using nn mem by (rule member_le_sum_list_nonneg)
  with q have "1 / 4 \<le> sum_list ?sq" by simp
  then show ?thesis unfolding mean_def len by simp
qed

lemma store_sample_last:
  assumes "length (success_times s) = length (success_rates s)"
  shows "last (success_rates (store_sample ct r s)) = r"
proof (cases "length (success_times s) + 1 > 100")
  case False
  then show ?thesis unfolding store_sample_eq by simp
next
  case True
  with assms obtain a as where "success_rates s = a # as" by (cases "success_rates s") auto
  then show ?thesis unfolding store_sample_eq using True by simp
qed

text \<open>
  C10. In jammer+prevention.py with jammer strength 0, whatever the jamming type and
  the noise samples, every sample of the interference waveform is 0 (on any time grid).
  On the grid of the simulation (1000 points over one second) and for a centre
  frequency between 40 and 60 Hz (the initial 50 and every value the spread-spectrum
  method can choose), the mean power of the clean signal is at least 1/4000, which over
  the epsilon denominator is far above 10, so the rate of the tick is exactly 100 and
  that is the value the tick stores.
\<close>

theorem zero_strength_full_success:
  assumes "adv.jammer_strength s = 0" and "40 \<le> fc s" and "fc s \<le> 60"
    and "fs s = 1000" and "duration s = 1"
    and "length (success_times s) = length (success_rates s)"
  shows "(\<forall>x\<in>set (snd (generate_signal randn t' s)). x = 0)
    \<and> success_rate_of
        (snr_of (fst (generate_signal randn
                   (linspace 0 (duration s) (nat (floor (real_of_int (fs s) * duration s)))) s))
                (snd (generate_signal randn
                   (linspace 0 (duration s) (nat (floor (real_of_int (fs s) * duration s)))) s)))
        = 100
    \<and> last (success_rates (run_simulation_body randn now
               (linspace 0 (duration s) (nat (floor (real_of_int (fs s) * duration s)))) s))
        = 100"
proof -
  have grid: "linspace 0 (duration s) (nat (floor (real_of_int (fs s) * duration s)))
      = linspace 0 1 1000"
    using assms(4,5) by simp
  let ?t = "linspace 0 1 1000"
  let ?sig = "fst (generate_signal randn ?t s)"
  let ?jam = "snd (generate_signal randn ?t s)"
  have z: "\<forall>x\<in>set (snd (generate_signal randn t' s)). x = 0" for t'
    by (rule zero_strength_zero_jammer [OF assms(1)])
  have "sum_list (map (\<lambda>x. x ^ 2) ?jam) = 0" using z by (rule sum_list_squares_zero)
  then have mj: "mean (map (\<lambda>x. x ^ 2) ?jam) = 0" by (simp add: mean_def)
  have p: "1 / 4000 \<le> mean (map (\<lambda>x. x ^ 2) ?sig)"
    by (rule clean_signal_power [OF assms(2,3)])
  have snr: "snr_of ?sig ?jam = mean (map (\<lambda>x. x ^ 2) ?sig) * 1000000"
    unfolding snr_of_def mj by simp
  have "250 \<le> snr_of ?sig ?jam" unfolding snr using p by simp
  then have r: "success_rate_of (snr_of ?sig ?jam) = 100"
    by (simp add: success_rate_of_def clip_def)
  have "last (success_rates (run_simulation_body randn now ?t s)) = 100"
    unfolding run_simulation_body_eq Let_def r
    using store_sample_last [OF assms(6), of "now - start_time s" 100] by simp
  with z r show ?thesis unfolding grid by blast
qed

theorem zero_strength_full_success_witness:
  "adv.jammer_strength (adv_init\<lparr>adv.jammer_strength := 0\<rparr>) = 0
   \<and> 40 \<le> fc (adv_init\<lparr>adv.jammer_strength := 0\<rparr>)
   \<and> fc (adv_init\<lparr>adv.jammer_strength := 0\<rparr>) \<le> 60
   \<and> fs (adv_init\<lparr>adv.jammer_strength := 0\<rparr>) = 1000
   \<and> duration (adv_init\<lparr>adv.jammer_strength := 0\<rparr>) = 1
   \<and> length (success_times (adv_init\<lparr>adv.jammer_strength := 0\<rparr>))
       = length (success_rates (adv_init\<lparr>adv.jammer_strength := 0\<rparr>))
   \<and> last (success_rates (run_simulation_body (\<lambda>i. 1) 2 (linspace 0 1 1000)
              (adv_init\<lparr>adv.jammer_strength := 0\<rparr>))) = 100"
proof -
  let ?s = "adv_init\<lparr>adv.jammer_strength := 0\<rparr>"
  have h: "adv.jammer_strength ?s = 0" "40 \<le> fc ?s" "fc ?s \<le> 60" "fs ?s = 1000"
    "duration ?s = 1" "length (success_times ?s) = length (success_rates ?s)"
    by (simp_all add: adv_init_def)
  have grid: "linspace 0 (duration ?s) (nat (floor (real_of_int (fs ?s) * duration ?s)))
      = linspace 0 1 1000"
    unfolding h(4,5) by simp
  from zero_strength_full_success [OF h, of "\<lambda>i. 1" "[]" 2]
  have "last (success_rates (run_simulation_body (\<lambda>i. 1) 2 (linspace 0 1 1000) ?s)) = 100"
    unfolding grid by blast
  with h show ?thesis by blast
qed

section \<open>Stopping the loop\<close>

lemma worker_step_stopped:
  assumes body: "\<And>s'. body (state w) = Inr s' \<Longrightarrow> is_running s' = is_running (state w)"
    and stopped: "\<not> is_running (state w)"
  shows "\<not> is_running (state (worker_step is_running body w))"
    and "ticks_begun (worker_step is_running body w) = ticks_begun w"
    and "ticks_done (worker_step is_running body w)
          \<le> ticks_done w + (if pc w = InBody then 1 else 0)"
    and "pc (worker_step is_running body w) \<noteq> InBody"
    and "steps_to_exit (worker_step is_running body w) \<le> steps_to_exit w - 1"
proof -
  let ?w = "worker_step is_running body w"
  have "\<not> is_running (state ?w) \<and> ticks_begun ?w = ticks_begun w
      \<and> ticks_done ?w \<le> ticks_done w + (if pc w = InBody then 1 else 0)
      \<and> pc ?w \<noteq> InBody \<and> steps_to_exit ?w \<le> steps_to_exit w - 1"
  proof (cases "pc w")
    case LoopTest
    with stopped show ?thesis by (simp add: worker_step_def steps_to_exit_def)
  next
    case Exited
    with stopped show ?thesis by (simp add: worker_step_def steps_to_exit_def)
  next
    case InBody
    show ?thesis
    proof (cases "body (state w)")
      case (Inl e)
      with InBody stopped show ?thesis by (simp add: worker_step_def steps_to_exit_def)
    next
      case (Inr s')
      with body stopped have "\<not> is_running s'" by simp
      with InBody Inr show ?thesis by (simp add: worker_step_def steps_to_exit_def)
    qed
  qed
  then show "\<not> is_running (state ?w)" "ticks_begun ?w = ticks_begun w"
    "ticks_done ?w \<le> ticks_done w + (if pc w = InBody then 1 else 0)"
    "pc ?w \<noteq> InBody" "steps_to_exit ?w \<le> steps_to_exit w - 1"
    by simp_all
qed

lemma run_threads_stopped:
  assumes body: "\<And>d s s'. body d s = Inr s' \<Longrightarrow> is_running s' = is_running s"
  shows "\<forall>g\<in>set (gui_steps as). \<forall>s. \<not> is_running s \<longrightarrow> \<not> is_running (gui g s) \<Longrightarrow>
    \<not> is_running (state w) \<Longrightarrow>
    \<not> is_running (state (run_threads is_running body gui as w))
    \<and> ticks_begun (run_threads is_running body gui as w) = ticks_begun w
    \<and> ticks_done (run_threads is_running body gui as w)
         \<le> ticks_done w + (if pc w = InBody then 1 else 0)
    \<and> (steps_to_exit w \<le> worker_steps as \<longrightarrow>
          pc (run_threads is_running body gui as w) = Exited)"
proof (induction as arbitrary: w)
  case Nil
  then show ?case by (cases "pc w") (simp_all add: steps_to_exit_def)
next
  case (Cons a as)
  show ?case
  proof (cases a)
    case (WorkerStep d)
    let ?w1 = "worker_step is_running (body d) w"
    have b: "\<And>s'. body d (state w) = Inr s' \<Longrightarrow> is_running s' = is_running (state w)"
      by (rule body)
    note st = worker_step_stopped [of "body d" w is_running, OF b Cons.prems(2)]
    have g: "\<forall>g\<in>set (gui_steps as). \<forall>s. \<not> is_running s \<longrightarrow> \<not> is_running (gui g s)"
      using Cons.prems(1) WorkerStep by simp
    note ih = Cons.IH [OF g st(1)]
    have run: "run_threads is_running body gui (a # as) w = run_threads is_running body gui as ?w1"
      using WorkerStep by simp
    have d1: "ticks_done (run_threads is_running body gui as ?w1) \<le> ticks_done ?w1"
      using ih st(4) by simp
    have "steps_to_exit w \<le> worker_steps (a # as) \<Longrightarrow> steps_to_exit ?w1 \<le> worker_steps as"
      using st(5) WorkerStep by simp
    with ih st(2,3) d1 show ?thesis unfolding run by auto
  next
    case (GuiStep e)
    let ?w1 = "w\<lparr>state := gui e (state w)\<rparr>"
    have s1: "\<not> is_running (state ?w1)" using Cons.prems GuiStep by simp
    have g: "\<forall>g\<in>set (gui_steps as). \<forall>s. \<not> is_running s \<longrightarrow> \<not> is_running (gui g s)"
      using Cons.prems(1) GuiStep by simp
    note ih = Cons.IH [OF g s1]
    have run: "run_threads is_running body gui (a # as) w = run_threads is_running body gui as ?w1"
      using GuiStep by simp
    have k: "pc ?w1 = pc w" "ticks_begun ?w1 = ticks_begun w" "ticks_done ?w1 = ticks_done w"
      "steps_to_exit ?w1 = steps_to_exit w" "worker_steps (a # as) = worker_steps as"
      using GuiStep by (simp_all add: steps_to_exit_def)
    from ih show ?thesis unfolding run k .
  qed
qed

lemma simulate_packets_body_running:
  assumes "simulate_packets_body d s = Inr s'"
  shows "jmch.running s' = jmch.running s"
proof -
  let ?s1 = "record_packet (randint d) (is_blocked s (random_random d)) s"
  let ?s2 = "?s1\<lparr>jmch.time_counter := jmch.time_counter ?s1 + uniform d\<rparr>"
  have k2: "jmch.running ?s2 = jmch.running s" by (simp add: record_packet_def)
  obtain s3 where s3: "update_graph ?s2 = Inr s3" "jmch.running s3 = jmch.running s"
    unfolding update_graph_ok using k2 by simp
  show ?thesis
  proof (cases "check_interval s3 = 0")
    case True
    with s3(1) assms show ?thesis by (simp add: simulate_packets_body_def Let_def py_mod_def)
  next
    case False
    then have body: "simulate_packets_body d s =
      (if (jmch.sent s3 + jmch.blocked s3) mod check_interval s3 = 0
       then check_for_jamming (pick d) s3 else Inr s3)"
      using s3(1) by (simp add: simulate_packets_body_def Let_def py_mod_def)
    show ?thesis
    proof (cases "(jmch.sent s3 + jmch.blocked s3) mod check_interval s3 = 0")
      case True
      with check_for_jamming_keeps [of "pick d" s3] assms s3(2) show ?thesis
        unfolding body by auto
    next
      case False
      with assms s3(2) show ?thesis unfolding body by auto
    qed
  qed
qed

lemma jmch_gui_step_stopped: "\<not> jmch.running s \<Longrightarrow> \<not> jmch.running (jmch_gui_step g s)"
  by (cases g) (simp_all add: toggle_jammer_def set_jammer_strength_def on_closing_def)


text \<open>
  C9 as stated fails in jammer+prevention.py: \<^verbatim>\<open>start_simulation\<close> sets \<open>running\<close> back
  to true. With an iteration in progress (the worker sleeps), Stop and then Start are
  pressed; the worker finishes its iteration, finds the flag true, and goes on: within
  its next four steps it has begun two more iterations, completed two, and not exited.
\<close>

theorem restart_keeps_stopped_worker_running:
  "ticks_begun (adv_threads (linspace 0 1 1000)
      [GuiStep (StartSimulation 1), WorkerStep (\<lambda>i. 0, 2), WorkerStep (\<lambda>i. 0, 3),
       WorkerStep (\<lambda>i. 0, 4), WorkerStep (\<lambda>i. 0, 5)]
      (\<lparr>pc = InBody, state = start_simulation 0 adv_init, ticks_begun = 1, ticks_done = 0\<rparr>
         \<lparr>state := stop_simulation
            (state \<lparr>pc = InBody, state = start_simulation 0 adv_init,
                    ticks_begun = 1, ticks_done = 0\<rparr>)\<rparr>)) = 3
   \<and> ticks_done (adv_threads (linspace 0 1 1000)
      [GuiStep (StartSimulation 1), WorkerStep (\<lambda>i. 0, 2), WorkerStep (\<lambda>i. 0, 3),
       WorkerStep (\<lambda>i. 0, 4), WorkerStep (\<lambda>i. 0, 5)]
      (\<lparr>pc = InBody, state = start_simulation 0 adv_init, ticks_begun = 1, ticks_done = 0\<rparr>
         \<lparr>state := stop_simulation
            (state \<lparr>pc = InBody, state = start_simulation 0 adv_init,
                    ticks_begun = 1, ticks_done = 0\<rparr>)\<rparr>)) = 2
   \<and> pc (adv_threads (linspace 0 1 1000)
      [GuiStep (StartSimulation 1), WorkerStep (\<lambda>i. 0, 2), WorkerStep (\<lambda>i. 0, 3),
       WorkerStep (\<lambda>i. 0, 4), WorkerStep (\<lambda>i. 0, 5)]
      (\<lparr>pc = InBody, state = start_simulation 0 adv_init, ticks_begun = 1, ticks_done = 0\<rparr>
         \<lparr>state := stop_simulation
            (state \<lparr>pc = InBody, state = start_simulation 0 adv_init,
                    ticks_begun = 1, ticks_done = 0\<rparr>)\<rparr>)) = InBody"
proof -
  let ?t = "linspace 0 1 1000"
  let ?s0 = "start_simulation 1 (stop_simulation (start_simulation 0 adv_init))"
  have r0: "adv.running ?s0"
    by (simp add: start_simulation_def stop_simulation_def adv_init_def)
  let ?s1 = "run_simulation_body (\<lambda>i. 0) 2 ?t ?s0"
  have r1: "adv.running ?s1" using r0 by (simp only: run_simulation_body_keeps)
  let ?s2 = "run_simulation_body (\<lambda>i. 0) 4 ?t ?s1"
  let ?w0 = "\<lparr>pc = InBody, state = ?s0, ticks_begun = 1, ticks_done = 0\<rparr>"
  let ?w1 = "\<lparr>pc = LoopTest, state = ?s1, ticks_begun = 1, ticks_done = 1\<rparr>"
  let ?w2 = "\<lparr>pc = InBody, state = ?s1, ticks_begun = 2, ticks_done = 1\<rparr>"
  let ?w3 = "\<lparr>pc = LoopTest, state = ?s2, ticks_begun = 2, ticks_done = 2\<rparr>"
  let ?w4 = "\<lparr>pc = InBody, state = ?s2, ticks_begun = 3, ticks_done = 2\<rparr>"
  let ?body = "\<lambda>(randn, now) s. Inr (run_simulation_body randn now ?t s) :: py_error + adv"
  have r2: "adv.running ?s2" using r1 by (simp only: run_simulation_body_keeps)
  have "adv_threads ?t
      [GuiStep (StartSimulation 1), WorkerStep (\<lambda>i. 0, 2), WorkerStep (\<lambda>i. 0, 3),
       WorkerStep (\<lambda>i. 0, 4), WorkerStep (\<lambda>i. 0, 5)]
      (\<lparr>pc = InBody, state = start_simulation 0 adv_init, ticks_begun = 1, ticks_done = 0\<rparr>
         \<lparr>state := stop_simulation
            (state \<lparr>pc = InBody, state = start_simulation 0 adv_init,
                    ticks_begun = 1, ticks_done = 0\<rparr>)\<rparr>) = ?w4"
    unfolding adv_threads_def using r0 r1 r2 by (simp add: worker_step_def)
  then show ?thesis by simp
qed

text \<open>
  C9, amended. Once \<open>running\<close> is false (\<^verbatim>\<open>on_closing\<close> in jmch.py,
  \<^verbatim>\<open>stop_simulation\<close> in jammer+prevention.py) and is not set back to true, under every
  interleaving of the worker with the Tk callbacks no further iteration is begun, at
  most one iteration is completed (the one that was in progress, if any), and the
  worker is gone after its next two steps at the latest: finishing the iteration in
  progress and one test of the flag. In jmch.py no callback sets the flag back; in
  jammer+prevention.py \<^verbatim>\<open>start_simulation\<close> does, so there the statement is for the
  schedules in which it is not called after the stop. Time is counted in iterations.
\<close>

theorem stop_flag_ends_loop_within_one_tick:
  "ticks_begun (jmch_threads sched (w\<lparr>state := on_closing (state w)\<rparr>)) = ticks_begun w
   \<and> ticks_done (jmch_threads sched (w\<lparr>state := on_closing (state w)\<rparr>))
        \<le> ticks_done w + (if pc w = InBody then 1 else 0)
   \<and> (2 \<le> worker_steps sched \<longrightarrow>
         pc (jmch_threads sched (w\<lparr>state := on_closing (state w)\<rparr>)) = Exited)
   \<and> ((\<forall>now. StartSimulation now \<notin> set (gui_steps asched)) \<longrightarrow>
         ticks_begun (adv_threads t asched (v\<lparr>state := stop_simulation (state v)\<rparr>)) = ticks_begun v
       \<and> ticks_done (adv_threads t asched (v\<lparr>state := stop_simulation (state v)\<rparr>))
            \<le> ticks_done v + (if pc v = InBody then 1 else 0)
       \<and> (2 \<le> worker_steps asched \<longrightarrow>
             pc (adv_threads t asched (v\<lparr>state := stop_simulation (state v)\<rparr>)) = Exited))"
proof -
  let ?w = "w\<lparr>state := on_closing (state w)\<rparr>"
  have jb: "\<And>d s s'. simulate_packets_body d s = Inr s' \<Longrightarrow> jmch.running s' = jmch.running s"
    by (rule simulate_packets_body_running)
  have jg: "\<forall>g\<in>set (gui_steps sched). \<forall>s. \<not> jmch.running s \<longrightarrow> \<not> jmch.running (jmch_gui_step g s)"
    by (simp add: jmch_gui_step_stopped)
  have js: "\<not> jmch.running (state ?w)" by (simp add: on_closing_def)
  have le2: "steps_to_exit ?w \<le> 2" by (cases "pc w") (simp_all add: steps_to_exit_def)
  note j = run_threads_stopped [of simulate_packets_body jmch.running sched jmch_gui_step ?w,
      OF jb jg js, folded jmch_threads_def]
  have j1: "ticks_begun (jmch_threads sched ?w) = ticks_begun w" using j by simp
  have j2: "ticks_done (jmch_threads sched ?w) \<le> ticks_done w + (if pc w = InBody then 1 else 0)"
    using j by simp
  have j3: "2 \<le> worker_steps sched \<longrightarrow> pc (jmch_threads sched ?w) = Exited"
    using j le2 by simp
  have a: "(\<forall>now. StartSimulation now \<notin> set (gui_steps asched)) \<longrightarrow>
         ticks_begun (adv_threads t asched (v\<lparr>state := stop_simulation (state v)\<rparr>)) = ticks_begun v
       \<and> ticks_done (adv_threads t asched (v\<lparr>state := stop_simulation (state v)\<rparr>))
            \<le> ticks_done v + (if pc v = InBody then 1 else 0)
       \<and> (2 \<le> worker_steps asched \<longrightarrow>
             pc (adv_threads t asched (v\<lparr>state := stop_simulation (state v)\<rparr>)) = Exited)"
  proof
    assume ns: "\<forall>now. StartSimulation now \<notin> set (gui_steps asched)"
    let ?v = "v\<lparr>state := stop_simulation (state v)\<rparr>"
    let ?body = "\<lambda>(randn, now) s. Inr (run_simulation_body randn now t s) :: py_error + adv"
    have ab: "\<And>d s s'. ?body d s = Inr s' \<Longrightarrow> adv.running s' = adv.running s"
      by (auto simp: run_simulation_body_keeps split: prod.splits)
    have ag: "\<forall>g\<in>set (gui_steps asched). \<forall>s. \<not> adv.running s \<longrightarrow> \<not> adv.running (adv_gui_step g s)"
    proof (intro ballI allI impI)
      fix g and s :: adv
      assume "g \<in> set (gui_steps asched)" and nr: "\<not> adv.running s"
      with ns have "\<And>now. g \<noteq> StartSimulation now" by blast
      from adv_gui_step_keeps(3) [OF this nr] show "\<not> adv.running (adv_gui_step g s)" .
    qed
    have as: "\<not> adv.running (state ?v)" by (simp add: stop_simulation_def)
    have le2: "steps_to_exit ?v \<le> 2" by (cases "pc v") (simp_all add: steps_to_exit_def)
    note r = run_threads_stopped [of ?body adv.running asched adv_gui_step ?v,
        OF ab ag as, folded adv_threads_def]
    have r1: "ticks_begun (adv_threads t asched ?v) = ticks_begun v" using r by simp
    have r2: "ticks_done (adv_threads t asched ?v) \<le> ticks_done v + (if pc v = InBody then 1 else 0)"
      using r by simp
    have r3: "2 \<le> worker_steps asched \<longrightarrow> pc (adv_threads t asched ?v) = Exited"
      using r le2 by simp
    from r1 r2 r3 show "ticks_begun (adv_threads t asched ?v) = ticks_begun v
       \<and> ticks_done (adv_threads t asched ?v) \<le> ticks_done v + (if pc v = InBody then 1 else 0)
       \<and> (2 \<le> worker_steps asched \<longrightarrow> pc (adv_threads t asched ?v) = Exited)"
      by blast
  qed
  from j1 j2 j3 a show ?thesis by blast
qed

text \<open>
  The witness stops both programs while an iteration is in progress: the iteration
  completes, no other is begun, and the next test of the flag ends the worker.
\<close>

theorem stop_flag_ends_loop_within_one_tick_witness:
  "(\<forall>now. StartSimulation now \<notin>
       set (gui_steps [WorkerStep (\<lambda>i. 0, 1), GuiStep (MoveStrengthSlider 3), WorkerStep (\<lambda>i. 0, 2)]))
   \<and> 2 \<le> worker_steps [WorkerStep (\<lambda>i. 0 :: real, 1 :: real), GuiStep (MoveStrengthSlider 3),
              WorkerStep (\<lambda>i. 0, 2)]
   \<and> 2 \<le> worker_steps
        [WorkerStep \<lparr>randint = 1000, uniform = 1 / 5, random_random = 0, pick = 0\<rparr>,
         GuiStep ToggleJammer,
         WorkerStep \<lparr>randint = 1001, uniform = 1 / 5, random_random = 0, pick = 0\<rparr>]
   \<and> pc (jmch_threads
        [WorkerStep \<lparr>randint = 1000, uniform = 1 / 5, random_random = 0, pick = 0\<rparr>,
         GuiStep ToggleJammer,
         WorkerStep \<lparr>randint = 1001, uniform = 1 / 5, random_random = 0, pick = 0\<rparr>]
        (\<lparr>pc = InBody, state = jmch_init, ticks_begun = 1, ticks_done = 0\<rparr>
           \<lparr>state := on_closing (state \<lparr>pc = InBody, state = jmch_init, ticks_begun = 1, ticks_done = 0\<rparr>)\<rparr>))
      = Exited
   \<and> ticks_begun (jmch_threads
        [WorkerStep \<lparr>randint = 1000, uniform = 1 / 5, random_random = 0, pick = 0\<rparr>,
         GuiStep ToggleJammer,
         WorkerStep \<lparr>randint = 1001, uniform = 1 / 5, random_random = 0, pick = 0\<rparr>]
        (\<lparr>pc = InBody, state = jmch_init, ticks_begun = 1, ticks_done = 0\<rparr>
           \<lparr>state := on_closing (state \<lparr>pc = InBody, state = jmch_init, ticks_begun = 1, ticks_done = 0\<rparr>)\<rparr>))
      = 1
   \<and> ticks_done (jmch_threads
        [WorkerStep \<lparr>randint = 1000, uniform = 1 / 5, random_random = 0, pick = 0\<rparr>,
         GuiStep ToggleJammer,
         WorkerStep \<lparr>randint = 1001, uniform = 1 / 5, random_random = 0, pick = 0\<rparr>]
        (\<lparr>pc = InBody, state = jmch_init, ticks_begun = 1, ticks_done = 0\<rparr>
           \<lparr>state := on_closing (state \<lparr>pc = InBody, state = jmch_init, ticks_begun = 1, ticks_done = 0\<rparr>)\<rparr>))
      \<le> 1
   \<and> pc (adv_threads (linspace 0 1 1000)
        [WorkerStep (\<lambda>i. 0, 1), GuiStep (MoveStrengthSlider 3), WorkerStep (\<lambda>i. 0, 2)]
        (\<lparr>pc = InBody, state = start_simulation 0 adv_init, ticks_begun = 1, ticks_done = 0\<rparr>
           \<lparr>state := stop_simulation
              (state \<lparr>pc = InBody, state = start_simulation 0 adv_init, ticks_begun = 1, ticks_done = 0\<rparr>)\<rparr>))
      = Exited
   \<and> ticks_begun (adv_threads (linspace 0 1 1000)
        [WorkerStep (\<lambda>i. 0, 1), GuiStep (MoveStrengthSlider 3), WorkerStep (\<lambda>i. 0, 2)]
        (\<lparr>pc = InBody, state = start_simulation 0 adv_init, ticks_begun = 1, ticks_done = 0\<rparr>
           \<lparr>state := stop_simulation
              (state \<lparr>pc = InBody, state = start_simulation 0 adv_init, ticks_begun = 1, ticks_done = 0\<rparr>)\<rparr>))
      = 1
   \<and> ticks_done (adv_threads (linspace 0 1 1000)
        [WorkerStep (\<lambda>i. 0, 1), GuiStep (MoveStrengthSlider 3), WorkerStep (\<lambda>i. 0, 2)]
        (\<lparr>pc = InBody, state = start_simulation 0 adv_init, ticks_begun = 1, ticks_done = 0\<rparr>
           \<lparr>state := stop_simulation
              (state \<lparr>pc = InBody, state = start_simulation 0 adv_init, ticks_begun = 1, ticks_done = 0\<rparr>)\<rparr>))
      = 1"
proof -
  let ?t = "linspace 0 1 1000"
  let ?as = "[WorkerStep (\<lambda>i. 0 :: real, 1 :: real), GuiStep (MoveStrengthSlider 3),
              WorkerStep (\<lambda>i. 0, 2)]"
  let ?v = "\<lparr>pc = InBody, state = start_simulation 0 adv_init, ticks_begun = 1, ticks_done = 0\<rparr>"
  have h1: "\<forall>now. StartSimulation now \<notin> set (gui_steps ?as)"
    by simp
  have h2: "2 \<le> worker_steps
        [WorkerStep \<lparr>randint = 1000, uniform = 1 / 5, random_random = 0, pick = 0\<rparr>,
         GuiStep ToggleJammer,
         WorkerStep \<lparr>randint = 1001, uniform = 1 / 5, random_random = 0, pick = 0\<rparr>]"
    by simp
  have h3: "2 \<le> worker_steps ?as"
    by simp
  have td: "ticks_done (adv_threads ?t ?as (?v\<lparr>state := stop_simulation (state ?v)\<rparr>)) = 1"
    unfolding adv_threads_def
    by (simp add: worker_step_def run_simulation_body_keeps stop_simulation_def)
  from stop_flag_ends_loop_within_one_tick
    [of "[WorkerStep \<lparr>randint = 1000, uniform = 1 / 5, random_random = 0, pick = 0\<rparr>,
         GuiStep ToggleJammer,
         WorkerStep \<lparr>randint = 1001, uniform = 1 / 5, random_random = 0, pick = 0\<rparr>]"
        "\<lparr>pc = InBody, state = jmch_init, ticks_begun = 1, ticks_done = 0\<rparr>"
        ?as ?t ?v]
    h1 h2 h3 td
  show ?thesis by simp
qed

end
